theory Spec2Isabelle
  imports Main
begin

section \<open>The siplus command line front end (src/main.cpp)\<close>

text \<open>
  The program is a single translation unit: \<^verbatim>\<open>parse_args\<close> fills an \<^verbatim>\<open>Args\<close>
  object from \<^verbatim>\<open>argv\<close>, \<^verbatim>\<open>main\<close> hands the template to the SIPlus engine and writes
  the rendered text to the chosen stream. Everything the code does beyond computing
  values (printing, opening and deleting the output stream, calling the engine, leaving the
  process) is recorded, in the order it happens, in a list of events.
\<close>

subsection \<open>Effects\<close>

datatype event =
    Stdout string
  | Stderr string
  | Opened string bool
  | FileWrite string string
  | Released string
  | Compile string "string list"
  | Render

text \<open>
  \<open>Opened p ok\<close> is \<^verbatim>\<open>new std::ofstream{p}\<close>; \<open>ok\<close> tells whether the file could be
  opened (the constructor does not throw, a stream that failed to open is in the failed
  state). \<open>Released p\<close> is the \<^verbatim>\<open>delete ptr\<close> of the deleter closure. \<open>Compile\<close> and
  \<open>Render\<close> are the calls of \<^verbatim>\<open>get_interpolation\<close> and \<^verbatim>\<open>construct_with\<close>.
\<close>

fun stdout_of :: "event list \<Rightarrow> string" where
  "stdout_of [] = []"
| "stdout_of (Stdout s # es) = s @ stdout_of es"
| "stdout_of (e # es) = stdout_of es"

fun stderr_of :: "event list \<Rightarrow> string" where
  "stderr_of [] = []"
| "stderr_of (Stderr s # es) = s @ stderr_of es"
| "stderr_of (e # es) = stderr_of es"

fun is_released :: "event \<Rightarrow> bool" where
  "is_released (Released p) = True"
| "is_released e = False"

fun is_opened :: "event \<Rightarrow> bool" where
  "is_opened (Opened p ok) = True"
| "is_opened e = False"

subsection \<open>The environment: files and the template engine\<close>

text \<open>
  The SIPlus library and the file system are not part of the program. They are
  parameters: \<open>'d\<close> is \<^verbatim>\<open>UnknownDataTypeContainer\<close>, \<open>'c\<close> is \<^verbatim>\<open>TextConstructor\<close>. An
  engine call that throws a \<^verbatim>\<open>std::exception\<close> returns \<open>Inl\<close> of its message;
  \<^verbatim>\<open>make_data\<close> and the context builder, which \<^verbatim>\<open>main\<close> calls outside of any
  \<^verbatim>\<open>try\<close>, are taken not to throw. \<open>file_contents\<close> gives the text of the files that
  can be read, \<open>can_open\<close> tells which paths can be opened for writing.
  \<open>bucket_order\<close> is the iteration order of the \<^verbatim>\<open>unordered_map\<close>, which the language
  leaves open.
\<close>

record ('d, 'c) world =
  file_contents :: "string \<Rightarrow> string option"
  can_open :: "string \<Rightarrow> bool"
  make_data :: "string \<Rightarrow> 'd"
  bucket_order :: "(string \<times> 'd) list \<Rightarrow> (string \<times> 'd) list"
  get_interpolation :: "string \<Rightarrow> string list \<Rightarrow> string + 'c"
  construct_with :: "'c \<Rightarrow> 'd option \<Rightarrow> (string \<times> 'd) list \<Rightarrow> string + string"

subsection \<open>stream_wrapper and Args\<close>

text \<open>
  \<^verbatim>\<open>args.out\<close> is a \<^verbatim>\<open>unique_ptr<stream_wrapper>\<close>: null, a wrapper of \<^verbatim>\<open>std::cout\<close>
  without deleter, or a wrapper of a heap-allocated \<^verbatim>\<open>ofstream\<close> whose deleter deletes it.
\<close>

datatype sink = Null | Shared | Owned string bool

text \<open>The destructor of \<^verbatim>\<open>stream_wrapper\<close>: the deleter runs if there is one.\<close>

fun destroy_sink :: "sink \<Rightarrow> event list" where
  "destroy_sink (Owned p ok) = [Released p]"
| "destroy_sink Shared = []"
| "destroy_sink Null = []"

text \<open>\<^verbatim>\<open>*args.out << text << std::flush\<close>; a stream that failed to open drops the text.\<close>

fun write_sink :: "sink \<Rightarrow> string \<Rightarrow> event list" where
  "write_sink Shared s = [Stdout s]"
| "write_sink (Owned p ok) s = (if ok then [FileWrite p s] else [])"
| "write_sink Null s = []"

text \<open>
  The four fields of \<^verbatim>\<open>Args\<close>, the three local flags of \<^verbatim>\<open>parse_args\<close>, and the
  events so far. \<open>default_value\<close> is \<open>None\<close> while the container is default-constructed;
  \<open>args\<close> lists the bindings in the order they were inserted.
\<close>

record 'd parse_state =
  input :: string
  out :: sink
  default_value :: "'d option"
  args :: "(string \<times> 'd) list"
  input_specified :: bool
  output_specified :: bool
  default_specified :: bool
  trace :: "event list"

definition initial_state :: "'d parse_state" where
  "initial_state = \<lparr>input = [], out = Null, default_value = None, args = [],
     input_specified = False, output_specified = False, default_specified = False,
     trace = []\<rparr>"

text \<open>Assigning \<^verbatim>\<open>args.out\<close> destroys the wrapper the pointer held before.\<close>

definition assign_out :: "sink \<Rightarrow> 'd parse_state \<Rightarrow> 'd parse_state" where
  "assign_out s st = st\<lparr>out := s, trace := trace st @ destroy_sink (out st)\<rparr>"

subsection \<open>help, read_file, parse_val\<close>

definition tab :: string where
  "tab = [CHR 0x09]"

definition help_text :: string where
  \<open>help_text =
     ''siplus: SIPlus String Interpolation CLI Utility\<newline>'' @
     ''usage: siplus <template> -d <default> [-v VAL=<value>]\<newline>'' @
     ''\<newline>'' @
     ''Arguments:\<newline>'' @
     tab @ ''-h'' @ tab @ ''--help'' @ tab @ tab @ tab @ ''Show this help message.\<newline>'' @
     tab @ ''-i'' @ tab @ ''--input <file>'' @ tab @ tab @
       ''Use input file instead of raw template text.\<newline>'' @
     tab @ ''-v'' @ tab @ ''--val <name>=<value>'' @ tab @
       ''Set value for use in template. This will be made available as a global.\<newline>'' @
     tab @ ''-d'' @ tab @ ''--default <value>'' @ tab @
       ''Set value for use in template. This will be made available as a the default value.\<newline>'' @
     tab @ ''-o'' @ tab @ ''--output <file>'' @ tab @ tab @
       ''Output to file instead of to stdout.\<newline>'' @
     ''\<newline>'' @
     ''Examples:'' @
     ''    siplus '' @ [CHR 0x22] @ ''Hello, {$first} {$last}'' @ [CHR 0x22] @
       '' -v first=john -v last=doe\<newline>'' @
     ''    # Hello, john doe\<newline>'' @
     ''\<newline>'' @
     ''    siplus '' @ [CHR 0x22] @ ''Hello, {.}'' @ [CHR 0x22] @ '' -d world\<newline>'' @
     ''    # Hello, world\<newline>'' @
     ''\<newline>'' @
     ''    siplus -i hello.txt -v first=world\<newline>'' @
     ''    # Hello, world\<newline>''\<close>

text \<open>
  \<^verbatim>\<open>read_file\<close>: the stream of a file that cannot be opened has nothing to copy, and
  the string stream stays empty.
\<close>

definition read_file :: "('d, 'c) world \<Rightarrow> string \<Rightarrow> string" where
  "read_file w file = (case file_contents w file of None \<Rightarrow> [] | Some s \<Rightarrow> s)"

text \<open>\<^verbatim>\<open>std::string::find\<close> of a character: the first index, or \<^verbatim>\<open>npos\<close>.\<close>

fun find_char :: "char \<Rightarrow> string \<Rightarrow> nat option" where
  "find_char c [] = None"
| "find_char c (x # xs) = (if x = c then Some 0 else map_option Suc (find_char c xs))"

definition parse_val :: "string \<Rightarrow> string + (string \<times> string)" where
  "parse_val val =
     (case find_char CHR ''='' val of
        None \<Rightarrow> Inl (''Could not find value in '' @ val)
      | Some idx \<Rightarrow> Inr (take idx val, drop (idx + 1) val))"

subsection \<open>parse_args\<close>

text \<open>
  How \<^verbatim>\<open>parse_args\<close> ends: it returns, it throws a \<^verbatim>\<open>runtime_error\<close> with a message,
  or it leaves the process through \<^verbatim>\<open>std::exit\<close>. \<^verbatim>\<open>args\<close> is passed by reference, so
  what was stored before a throw stays stored.
\<close>

datatype 'd presult =
    Returned "'d parse_state"
  | Threw string "'d parse_state"
  | Exited int "'d parse_state"

text \<open>
  The loop \<^verbatim>\<open>for(int i = 1; i < argc; i++)\<close> over the tokens that are left; \<^verbatim>\<open>i + 1 < argc\<close>
  holds when a token follows the current one.
\<close>

fun parse_loop :: "('d, 'c) world \<Rightarrow> 'd parse_state \<Rightarrow> string list \<Rightarrow> 'd presult" where
  "parse_loop w st [] = Returned st"
| "parse_loop w st (val # rest) =
     (if val = ''-h'' \<or> val = ''--help'' then
        Exited 0 (st\<lparr>trace := trace st @ [Stdout (help_text @ ''\<newline>'')]\<rparr>)
      else if val = ''-i'' \<or> val = ''--input'' then
        (if input_specified st then
           Threw ''input was already specified, -i was unexpected'' st
         else case rest of
           [] \<Rightarrow> Threw ''expected argument for -i'' st
         | a # rest' \<Rightarrow>
             parse_loop w (st\<lparr>input_specified := True, input := read_file w a\<rparr>) rest')
      else if val = ''-v'' \<or> val = ''--val'' then
        (case rest of
           [] \<Rightarrow> Threw ''expected argument for -v'' st
         | a # rest' \<Rightarrow>
             (case parse_val a of
                Inl msg \<Rightarrow> Threw msg st
              | Inr (name, value) \<Rightarrow>
                  if map_of (args st) name \<noteq> None then
                    Threw (''value '' @ name @ '' was already specified'') st
                  else
                    parse_loop w (st\<lparr>args := args st @ [(name, make_data w value)]\<rparr>) rest'))
      else if val = ''-d'' \<or> val = ''--default'' then
        (if default_specified st then
           Threw ''default value already specified'' st
         else case rest of
           [] \<Rightarrow> Threw ''expected argument for -d'' st
         | a # rest' \<Rightarrow>
             parse_loop w
               (st\<lparr>default_specified := True, default_value := Some (make_data w a)\<rparr>) rest')
      else if val = ''-o'' \<or> val = ''--output'' then
        (if output_specified st then
           Threw ''output already specified'' st
         else case rest of
           [] \<Rightarrow> Threw ''expected argument for -o'' st
         | a # rest' \<Rightarrow>
             parse_loop w
               (assign_out (Owned a (can_open w a))
                  (st\<lparr>output_specified := True,
                      trace := trace st @ [Opened a (can_open w a)]\<rparr>)) rest')
      else if \<not> input_specified st then
        parse_loop w (st\<lparr>input_specified := True, input := val\<rparr>) rest
      else
        Threw (''Unknown extra parameter '' @ val) st)"

text \<open>What follows the loop: the default stream and the two required settings.\<close>

definition finish_args :: "'d parse_state \<Rightarrow> 'd presult" where
  "finish_args st =
     (let st1 = (if \<not> output_specified st then assign_out Shared st else st) in
      if \<not> input_specified st1 then Threw ''No input specified (-h for help)'' st1
      else if \<not> default_specified st1 then Threw ''No default value specified'' st1
      else Returned st1)"

text \<open>
  \<^verbatim>\<open>argv[0]\<close> is the program name; an empty \<^verbatim>\<open>argv\<close> has no tokens either. The only
  caller passes a default-constructed \<^verbatim>\<open>Args\<close>, and the three flags start false.
\<close>

definition parse_args :: "('d, 'c) world \<Rightarrow> string list \<Rightarrow> 'd presult" where
  "parse_args w argv =
     (case parse_loop w initial_state (drop 1 argv) of
        Returned st' \<Rightarrow> finish_args st'
      | Threw msg st' \<Rightarrow> Threw msg st'
      | Exited code st' \<Rightarrow> Exited code st')"

subsection \<open>main and the signal handler\<close>

record outcome =
  exit_code :: int
  events :: "event list"

text \<open>
  \<^verbatim>\<open>main\<close> returns on every path but one: \<^verbatim>\<open>std::exit\<close> inside \<^verbatim>\<open>parse_args\<close> leaves
  the process without unwinding the stack, so the destructor of the local \<^verbatim>\<open>args\<close> does
  not run there. On a \<^verbatim>\<open>return\<close> it runs, after the message has been printed.
\<close>

definition main :: "('d, 'c) world \<Rightarrow> string list \<Rightarrow> outcome" where
  "main w argv =
     (case parse_args w argv of
        Exited code st \<Rightarrow> \<lparr>exit_code = code, events = trace st\<rparr>
      | Threw msg st \<Rightarrow>
          \<lparr>exit_code = 2,
           events = trace st @ [Stderr (''error: '' @ msg @ ''\<newline>'')] @ destroy_sink (out st)\<rparr>
      | Returned st \<Rightarrow>
          (let globals = map fst (bucket_order w (args st));
               compile = Compile (input st) globals
           in case get_interpolation w (input st) globals of
                Inl e \<Rightarrow>
                  \<lparr>exit_code = 1,
                   events = trace st @ [compile, Stderr (''parse error: '' @ e @ ''\<newline>'')]
                              @ destroy_sink (out st)\<rparr>
              | Inr constructor \<Rightarrow>
                  (case construct_with w constructor (default_value st)
                          (bucket_order w (args st)) of
                     Inl e \<Rightarrow>
                       \<lparr>exit_code = 1,
                        events = trace st
                                   @ [compile, Render,
                                      Stderr (''execution error: '' @ e @ ''\<newline>'')]
                                   @ destroy_sink (out st)\<rparr>
                   | Inr text \<Rightarrow>
                       \<lparr>exit_code = 0,
                        events = trace st @ [compile, Render] @ write_sink (out st) text
                                   @ destroy_sink (out st)\<rparr>)))"

text \<open>Decimal output of an \<^verbatim>\<open>int\<close>, as \<^verbatim>\<open>operator<<\<close> prints it.\<close>

fun show_nat :: "nat \<Rightarrow> string" where
  "show_nat n =
     (if n < 10 then [char_of (48 + n)]
      else show_nat (n div 10) @ [char_of (48 + n mod 10)])"

definition show_int :: "int \<Rightarrow> string" where
  "show_int i = (if i < 0 then CHR ''-'' # show_nat (nat (- i)) else show_nat (nat i))"

text \<open>
  \<^verbatim>\<open>signal_handler\<close>, installed by \<^verbatim>\<open>main\<close> for \<^verbatim>\<open>SIGSEGV\<close> and \<^verbatim>\<open>SIGABRT\<close>. The text
  of the stack trace comes from the cpptrace library and is a parameter; it goes to the
  error stream.
\<close>

definition signal_handler :: "string \<Rightarrow> int \<Rightarrow> outcome" where
  "signal_handler stack_trace signal =
     \<lparr>exit_code = 1,
      events = [Stdout (''Signal '' @ show_int signal @ '' caught. Death imminent.''),
                Stderr stack_trace]\<rparr>"

subsection \<open>Vocabulary of the properties\<close>

text \<open>The five pairs of flag spellings that \<^verbatim>\<open>parse_args\<close> compares a token with.\<close>

definition is_help :: "string \<Rightarrow> bool" where
  "is_help v \<longleftrightarrow> v = ''-h'' \<or> v = ''--help''"

definition is_input :: "string \<Rightarrow> bool" where
  "is_input v \<longleftrightarrow> v = ''-i'' \<or> v = ''--input''"

definition is_val :: "string \<Rightarrow> bool" where
  "is_val v \<longleftrightarrow> v = ''-v'' \<or> v = ''--val''"

definition is_default :: "string \<Rightarrow> bool" where
  "is_default v \<longleftrightarrow> v = ''-d'' \<or> v = ''--default''"

definition is_output :: "string \<Rightarrow> bool" where
  "is_output v \<longleftrightarrow> v = ''-o'' \<or> v = ''--output''"

definition recognized_flag :: "string \<Rightarrow> bool" where
  "recognized_flag v \<longleftrightarrow> is_help v \<or> is_input v \<or> is_val v \<or> is_default v \<or> is_output v"

fun state_of :: "'d presult \<Rightarrow> 'd parse_state" where
  "state_of (Returned st) = st"
| "state_of (Threw msg st) = st"
| "state_of (Exited code st) = st"

fun exited :: "'d presult \<Rightarrow> bool" where
  "exited (Exited code st) = True"
| "exited (Returned st) = False"
| "exited (Threw msg st) = False"

definition opens :: "event list \<Rightarrow> nat" where
  "opens es = length (filter is_opened es)"

definition releases :: "event list \<Rightarrow> nat" where
  "releases es = length (filter is_released es)"

text \<open>
  The shape of a command line as the usage text describes it: a sequence of items, each
  a bare template, or a flag followed by its argument. The first string of a flagged
  item is the spelling of the flag; a \<open>ValOpt\<close> carries the name and the value that its
  argument \<^verbatim>\<open>NAME=VALUE\<close> joins.
\<close>

datatype cli_item =
    Template string
  | InputFile string string
  | ValOpt string string string
  | DefaultOpt string string
  | OutputOpt string string

fun item_tokens :: "cli_item \<Rightarrow> string list" where
  "item_tokens (Template t) = [t]"
| "item_tokens (InputFile f p) = [f, p]"
| "item_tokens (ValOpt f n v) = [f, n @ CHR ''='' # v]"
| "item_tokens (DefaultOpt f v) = [f, v]"
| "item_tokens (OutputOpt f p) = [f, p]"

definition tokens_of :: "cli_item list \<Rightarrow> string list" where
  "tokens_of items = concat (map item_tokens items)"

fun wf_item :: "cli_item \<Rightarrow> bool" where
  "wf_item (Template t) = (\<not> recognized_flag t)"
| "wf_item (InputFile f p) = is_input f"
| "wf_item (ValOpt f n v) = (is_val f \<and> CHR ''='' \<notin> set n)"
| "wf_item (DefaultOpt f v) = is_default f"
| "wf_item (OutputOpt f p) = is_output f"

fun is_source :: "cli_item \<Rightarrow> bool" where
  "is_source (Template t) = True"
| "is_source (InputFile f p) = True"
| "is_source i = False"

fun is_default_item :: "cli_item \<Rightarrow> bool" where
  "is_default_item (DefaultOpt f v) = True"
| "is_default_item i = False"

fun is_output_item :: "cli_item \<Rightarrow> bool" where
  "is_output_item (OutputOpt f p) = True"
| "is_output_item i = False"

fun val_pairs :: "cli_item list \<Rightarrow> (string \<times> string) list" where
  "val_pairs [] = []"
| "val_pairs (ValOpt f n v # is) = (n, v) # val_pairs is"
| "val_pairs (i # is) = val_pairs is"

text \<open>
  A valid invocation: exactly one template source, exactly one default, at most one
  output file, and names that differ pairwise.
\<close>

definition valid_invocation :: "cli_item list \<Rightarrow> bool" where
  "valid_invocation items \<longleftrightarrow>
     list_all wf_item items \<and>
     length (filter is_source items) = 1 \<and>
     length (filter is_default_item items) = 1 \<and>
     length (filter is_output_item items) \<le> 1 \<and>
     distinct (map fst (val_pairs items))"

text \<open>What one item is expected to do to the state of \<^verbatim>\<open>parse_args\<close>.\<close>

fun item_effect :: "('d, 'c) world \<Rightarrow> 'd parse_state \<Rightarrow> cli_item \<Rightarrow> 'd parse_state" where
  "item_effect w st (Template t) = st\<lparr>input_specified := True, input := t\<rparr>"
| "item_effect w st (InputFile f p) = st\<lparr>input_specified := True, input := read_file w p\<rparr>"
| "item_effect w st (ValOpt f n v) = st\<lparr>args := args st @ [(n, make_data w v)]\<rparr>"
| "item_effect w st (DefaultOpt f v) =
     st\<lparr>default_specified := True, default_value := Some (make_data w v)\<rparr>"
| "item_effect w st (OutputOpt f p) =
     assign_out (Owned p (can_open w p))
       (st\<lparr>output_specified := True, trace := trace st @ [Opened p (can_open w p)]\<rparr>)"

text \<open>An item fits a state when the loop accepts it there.\<close>

fun fits :: "'d parse_state \<Rightarrow> cli_item \<Rightarrow> bool" where
  "fits st (Template t) = (\<not> input_specified st)"
| "fits st (InputFile f p) = (\<not> input_specified st)"
| "fits st (ValOpt f n v) = (map_of (args st) n = None)"
| "fits st (DefaultOpt f v) = (\<not> default_specified st)"
| "fits st (OutputOpt f p) = (\<not> output_specified st)"

text \<open>
  A sequence of items is accepted from a state when no item repeats what the state or
  an earlier item has set.
\<close>

definition accepts :: "'d parse_state \<Rightarrow> cli_item list \<Rightarrow> bool" where
  "accepts st items \<longleftrightarrow>
     list_all wf_item items \<and>
     length (filter is_source items) \<le> (if input_specified st then 0 else 1) \<and>
     length (filter is_default_item items) \<le> (if default_specified st then 0 else 1) \<and>
     length (filter is_output_item items) \<le> (if output_specified st then 0 else 1) \<and>
     distinct (map fst (args st) @ map fst (val_pairs items))"

text \<open>
  The runs of the loop, as a relation: a run ends at the end of the tokens, at a help
  flag or at one of the ten throws, and before that it accepts items one by one. The
  function \<open>parse_loop\<close> is shown below to produce only such runs.
\<close>

inductive loop_run :: "('d, 'c) world \<Rightarrow> 'd parse_state \<Rightarrow> string list \<Rightarrow> 'd presult \<Rightarrow> bool"
  for w :: "('d, 'c) world" where
  Done: "loop_run w st [] (Returned st)"
| Help: "is_help val \<Longrightarrow>
     loop_run w st (val # rest)
       (Exited 0 (st\<lparr>trace := trace st @ [Stdout (help_text @ ''\<newline>'')]\<rparr>))"
| InputDup: "is_input val \<Longrightarrow> input_specified st \<Longrightarrow>
     loop_run w st (val # rest) (Threw ''input was already specified, -i was unexpected'' st)"
| InputArg: "is_input val \<Longrightarrow> \<not> input_specified st \<Longrightarrow>
     loop_run w st [val] (Threw ''expected argument for -i'' st)"
| ValArg: "is_val val \<Longrightarrow> loop_run w st [val] (Threw ''expected argument for -v'' st)"
| ValBad: "is_val val \<Longrightarrow> CHR ''='' \<notin> set a \<Longrightarrow>
     loop_run w st (val # a # rest) (Threw (''Could not find value in '' @ a) st)"
| ValDup: "is_val val \<Longrightarrow> CHR ''='' \<notin> set n \<Longrightarrow> map_of (args st) n \<noteq> None \<Longrightarrow>
     loop_run w st (val # (n @ CHR ''='' # v) # rest)
       (Threw (''value '' @ n @ '' was already specified'') st)"
| DefaultDup: "is_default val \<Longrightarrow> default_specified st \<Longrightarrow>
     loop_run w st (val # rest) (Threw ''default value already specified'' st)"
| DefaultArg: "is_default val \<Longrightarrow> \<not> default_specified st \<Longrightarrow>
     loop_run w st [val] (Threw ''expected argument for -d'' st)"
| OutputDup: "is_output val \<Longrightarrow> output_specified st \<Longrightarrow>
     loop_run w st (val # rest) (Threw ''output already specified'' st)"
| OutputArg: "is_output val \<Longrightarrow> \<not> output_specified st \<Longrightarrow>
     loop_run w st [val] (Threw ''expected argument for -o'' st)"
| Extra: "\<not> recognized_flag val \<Longrightarrow> input_specified st \<Longrightarrow>
     loop_run w st (val # rest) (Threw (''Unknown extra parameter '' @ val) st)"
| Step: "wf_item item \<Longrightarrow> fits st item \<Longrightarrow> loop_run w (item_effect w st item) rest r \<Longrightarrow>
     loop_run w st (item_tokens item @ rest) r"

text \<open>
  The resource discipline of \<^verbatim>\<open>args.out\<close> inside \<^verbatim>\<open>parse_args\<close>: nothing has been
  released, and a stream has been opened exactly when the pointer owns it.
\<close>

definition sink_inv :: "'d parse_state \<Rightarrow> bool" where
  "sink_inv st \<longleftrightarrow>
     releases (trace st) = 0 \<and>
     (case out st of
        Null \<Rightarrow> \<not> output_specified st \<and> opens (trace st) = 0
      | Shared \<Rightarrow> \<not> output_specified st \<and> opens (trace st) = 0
      | Owned p ok \<Rightarrow> output_specified st \<and> filter is_opened (trace st) = [Opened p ok])"

text \<open>Reading a decimal numeral back, to state what \<open>show_nat\<close> prints.\<close>

definition read_nat :: "string \<Rightarrow> nat" where
  "read_nat s = foldl (\<lambda>a c. 10 * a + (of_char c - 48)) 0 s"

text \<open>
  A stand-in for the environment, to run the program on concrete command lines: one
  readable file, one writable path, and an engine that rejects the template \<^verbatim>\<open>{\<close> and
  renders \<^verbatim>\<open>{$x}\<close> as the value bound to \<^verbatim>\<open>x\<close>.
\<close>

definition toy_world :: "(string, string) world" where
  "toy_world =
     \<lparr>file_contents = map_of [(''hello.txt'', ''Hello'')],
      can_open = (\<lambda>p. p = ''out.txt''),
      make_data = (\<lambda>s. s),
      bucket_order = (\<lambda>bs. bs),
      get_interpolation = (\<lambda>t g. if t = ''{'' then Inl ''unterminated expression'' else Inr t),
      construct_with = (\<lambda>c d bs.
        if c = ''{$x}'' then
          (case map_of bs ''x'' of None \<Rightarrow> Inl ''unknown variable x'' | Some v \<Rightarrow> Inr v)
        else Inr c)\<rparr>"

section \<open>The loop of parse_args\<close>

lemma parse_loop_unfold:
  "parse_loop w st (val # rest) =
     (if is_help val then
        Exited 0 (st\<lparr>trace := trace st @ [Stdout (help_text @ ''\<newline>'')]\<rparr>)
      else if is_input val then
        (if input_specified st then
           Threw ''input was already specified, -i was unexpected'' st
         else case rest of
           [] \<Rightarrow> Threw ''expected argument for -i'' st
         | a # rest' \<Rightarrow>
             parse_loop w (st\<lparr>input_specified := True, input := read_file w a\<rparr>) rest')
      else if is_val val then
        (case rest of
           [] \<Rightarrow> Threw ''expected argument for -v'' st
         | a # rest' \<Rightarrow>
             (case parse_val a of
                Inl msg \<Rightarrow> Threw msg st
              | Inr (name, value) \<Rightarrow>
                  if map_of (args st) name \<noteq> None then
                    Threw (''value '' @ name @ '' was already specified'') st
                  else
                    parse_loop w (st\<lparr>args := args st @ [(name, make_data w value)]\<rparr>) rest'))
      else if is_default val then
        (if default_specified st then
           Threw ''default value already specified'' st
         else case rest of
           [] \<Rightarrow> Threw ''expected argument for -d'' st
         | a # rest' \<Rightarrow>
             parse_loop w
               (st\<lparr>default_specified := True, default_value := Some (make_data w a)\<rparr>) rest')
      else if is_output val then
        (if output_specified st then
           Threw ''output already specified'' st
         else case rest of
           [] \<Rightarrow> Threw ''expected argument for -o'' st
         | a # rest' \<Rightarrow>
             parse_loop w
               (assign_out (Owned a (can_open w a))
                  (st\<lparr>output_specified := True,
                      trace := trace st @ [Opened a (can_open w a)]\<rparr>)) rest')
      else if \<not> input_specified st then
        parse_loop w (st\<lparr>input_specified := True, input := val\<rparr>) rest
      else
        Threw (''Unknown extra parameter '' @ val) st)"
  unfolding is_help_def is_input_def is_val_def is_default_def is_output_def
  by (rule parse_loop.simps(2))

declare parse_loop.simps(2) [simp del]

lemmas parse_loop_induct =
  parse_loop.induct [folded is_help_def is_input_def is_val_def is_default_def is_output_def]

lemma parse_loop_append:
  "parse_loop w st pre = Returned st' \<Longrightarrow>
   parse_loop w st (pre @ post) = parse_loop w st' post"
proof (induction w st pre rule: parse_loop_induct)
  case (1 w st)
  then show ?case by simp
next
  case (2 w st val rest)
  from "2.prems" show ?case
    apply (simp add: parse_loop_unfold split: if_splits list.splits sum.splits prod.splits)
    using "2.IH" apply auto
    done
qed

subsection \<open>Well-formed command lines\<close>

lemma flag_kinds:
  "is_help v \<Longrightarrow> \<not> is_input v \<and> \<not> is_val v \<and> \<not> is_default v \<and> \<not> is_output v"
  "is_input v \<Longrightarrow> \<not> is_help v \<and> \<not> is_val v \<and> \<not> is_default v \<and> \<not> is_output v"
  "is_val v \<Longrightarrow> \<not> is_help v \<and> \<not> is_input v \<and> \<not> is_default v \<and> \<not> is_output v"
  "is_default v \<Longrightarrow> \<not> is_help v \<and> \<not> is_input v \<and> \<not> is_val v \<and> \<not> is_output v"
  "is_output v \<Longrightarrow> \<not> is_help v \<and> \<not> is_input v \<and> \<not> is_val v \<and> \<not> is_default v"
  by (auto simp: is_help_def is_input_def is_val_def is_default_def is_output_def)

lemma find_char_append:
  "c \<notin> set n \<Longrightarrow> find_char c (n @ c # v) = Some (length n)"
  by (induction n) auto

lemma parse_val_eq:
  "CHR ''='' \<notin> set n \<Longrightarrow> parse_val (n @ CHR ''='' # v) = Inr (n, v)"
  by (simp add: parse_val_def find_char_append)

lemma find_char_None: "find_char c s = None \<longleftrightarrow> c \<notin> set s"
  by (induction s) auto

lemma loop_item:
  "wf_item item \<Longrightarrow> fits st item \<Longrightarrow>
   parse_loop w st (item_tokens item @ rest) = parse_loop w (item_effect w st item) rest"
  by (cases item) (auto simp: parse_loop_unfold recognized_flag_def parse_val_eq dest: flag_kinds)

lemma accepts_Cons:
  "accepts st (item # items) \<Longrightarrow>
   wf_item item \<and> fits st item \<and> accepts (item_effect w st item) items"
  by (cases item)
     (auto simp: accepts_def assign_out_def map_of_eq_None_iff split: if_splits)

lemma loop_items:
  "accepts st items \<Longrightarrow>
   parse_loop w st (tokens_of items @ rest) = parse_loop w (foldl (item_effect w) st items) rest"
proof (induction items arbitrary: st)
  case Nil
  then show ?case by (simp add: tokens_of_def)
next
  case (Cons item items)
  from accepts_Cons [OF Cons.prems, of w]
  have wf: "wf_item item" and f: "fits st item" and a: "accepts (item_effect w st item) items"
    by simp_all
  have "parse_loop w st (tokens_of (item # items) @ rest)
        = parse_loop w st (item_tokens item @ (tokens_of items @ rest))"
    by (simp add: tokens_of_def)
  also have "\<dots> = parse_loop w (item_effect w st item) (tokens_of items @ rest)"
    using wf f by (rule loop_item)
  also have "\<dots> = parse_loop w (foldl (item_effect w) (item_effect w st item) items) rest"
    using a by (rule Cons.IH)
  finally show ?case by simp
qed

lemma effect_args:
  "args (foldl (item_effect w) st items)
     = args st @ map (\<lambda>(n, v). (n, make_data w v)) (val_pairs items)"
proof (induction items arbitrary: st)
  case Nil
  then show ?case by simp
next
  case (Cons item items)
  then show ?case by (cases item) (simp_all add: assign_out_def)
qed

lemma effect_input_specified:
  "input_specified (foldl (item_effect w) st items)
     \<longleftrightarrow> input_specified st \<or> filter is_source items \<noteq> []"
proof (induction items arbitrary: st)
  case Nil
  then show ?case by simp
next
  case (Cons item items)
  then show ?case by (cases item) (simp_all add: assign_out_def)
qed

lemma effect_default_specified:
  "default_specified (foldl (item_effect w) st items)
     \<longleftrightarrow> default_specified st \<or> filter is_default_item items \<noteq> []"
proof (induction items arbitrary: st)
  case Nil
  then show ?case by simp
next
  case (Cons item items)
  then show ?case by (cases item) (simp_all add: assign_out_def)
qed

lemma valid_accepts: "valid_invocation items \<Longrightarrow> accepts initial_state items"
  by (simp add: valid_invocation_def accepts_def initial_state_def)

lemma finish_args_args:
  "finish_args st = Returned st' \<Longrightarrow> args st' = args st \<and> input st' = input st"
  by (auto simp: finish_args_def assign_out_def Let_def split: if_splits)

lemma parse_args_valid:
  assumes "valid_invocation items"
  shows "parse_args w (prog # tokens_of items)
           = finish_args (foldl (item_effect w) initial_state items)"
    and "\<exists>st. finish_args (foldl (item_effect w) initial_state items) = Returned st"
proof -
  let ?st = "foldl (item_effect w) initial_state items"
  have "parse_loop w initial_state (tokens_of items @ []) = parse_loop w ?st []"
    using valid_accepts [OF assms] by (rule loop_items)
  then show "parse_args w (prog # tokens_of items) = finish_args ?st"
    by (simp add: parse_args_def)
  have "input_specified ?st" "default_specified ?st"
    using assms
    by (auto simp: effect_input_specified effect_default_specified valid_invocation_def)
  then show "\<exists>st. finish_args ?st = Returned st"
    by (simp add: finish_args_def Let_def assign_out_def)
qed

lemma dom_coerced:
  "dom (map_of (map (\<lambda>(n, v). (n, f v)) ps)) = set (map fst ps)"
  by (simp add: dom_map_of_conv_image_fst image_image case_prod_unfold)

lemma map_of_coerced:
  "distinct (map fst ps) \<Longrightarrow> (n, v) \<in> set ps \<Longrightarrow>
   map_of (map (\<lambda>(n, v). (n, f v)) ps) n = Some (f v)"
  by (induction ps) (auto simp: rev_image_eqI)

lemma toy_make_data: "make_data toy_world s = s"
  by (simp add: toy_world_def)

subsection \<open>Every run of the loop is a run of the relation\<close>

lemma find_char_Some:
  "find_char c s = Some i \<Longrightarrow> s = take i s @ c # drop (Suc i) s \<and> c \<notin> set (take i s)"
proof (induction s arbitrary: i)
  case Nil
  then show ?case by simp
next
  case (Cons x xs)
  show ?case
  proof (cases "x = c")
    case True
    with Cons.prems show ?thesis by simp
  next
    case False
    with Cons.prems obtain j where j: "find_char c xs = Some j" "i = Suc j"
      by auto
    from Cons.IH [OF j(1)] False j(2) show ?thesis by simp
  qed
qed

lemma parse_val_Inl: "parse_val a = Inl msg \<Longrightarrow> CHR ''='' \<notin> set a \<and> msg = ''Could not find value in '' @ a"
  by (auto simp: parse_val_def find_char_None [symmetric] split: option.splits)

lemma parse_val_Inr: "parse_val a = Inr (n, v) \<Longrightarrow> a = n @ CHR ''='' # v \<and> CHR ''='' \<notin> set n"
  using find_char_Some [of "CHR ''=''" a]
  by (auto simp: parse_val_def split: option.splits)

lemma parse_loop_run: "loop_run w st toks (parse_loop w st toks)"
proof (induction w st toks rule: parse_loop_induct)
  case (1 w st)
  show ?case by (simp add: loop_run.Done)
next
  case (2 w st val rest)
  show ?case
  proof (cases "is_help val")
    case True
    then show ?thesis by (simp add: parse_loop_unfold loop_run.Help)
  next
    case nh: False
    show ?thesis
    proof (cases "is_input val")
      case i: True
      show ?thesis
      proof (cases "input_specified st")
        case True
        with nh i show ?thesis by (simp add: parse_loop_unfold loop_run.InputDup)
      next
        case ns: False
        show ?thesis
        proof (cases rest)
          case Nil
          with nh i ns show ?thesis by (simp add: parse_loop_unfold loop_run.InputArg)
        next
          case (Cons a r)
          let ?st = "st\<lparr>input_specified := True, input := read_file w a\<rparr>"
          have "loop_run w ?st r (parse_loop w ?st r)"
            using "2.IH"(1) nh i ns Cons by simp
          then have "loop_run w st (item_tokens (InputFile val a) @ r) (parse_loop w ?st r)"
            using loop_run.Step [of "InputFile val a" st w r] i ns by simp
          with nh i ns Cons show ?thesis by (simp add: parse_loop_unfold)
        qed
      qed
    next
      case ni: False
      show ?thesis
      proof (cases "is_val val")
        case v: True
        show ?thesis
        proof (cases rest)
          case Nil
          with nh ni v show ?thesis by (simp add: parse_loop_unfold loop_run.ValArg)
        next
          case (Cons a r)
          show ?thesis
          proof (cases "parse_val a")
            case (Inl msg)
            from parse_val_Inl [OF Inl]
            have na: "CHR ''='' \<notin> set a" and msg: "msg = ''Could not find value in '' @ a"
              by simp_all
            have "loop_run w st (val # a # r) (Threw (''Could not find value in '' @ a) st)"
              using v na by (rule loop_run.ValBad)
            with nh ni v Cons Inl msg show ?thesis
              by (simp add: parse_loop_unfold)
          next
            case (Inr nv)
            obtain n x where nv: "nv = (n, x)" by (cases nv)
            from parse_val_Inr [of a n x] Inr nv
            have a: "a = n @ CHR ''='' # x" and n: "CHR ''='' \<notin> set n" by simp_all
            show ?thesis
            proof (cases "map_of (args st) n \<noteq> None")
              case True
              have "loop_run w st (val # (n @ CHR ''='' # x) # r)
                      (Threw (''value '' @ n @ '' was already specified'') st)"
                using v n True by (rule loop_run.ValDup)
              with nh ni v Cons Inr nv True a show ?thesis
                by (simp add: parse_loop_unfold)
            next
              case False
              let ?st = "st\<lparr>args := args st @ [(n, make_data w x)]\<rparr>"
              have "loop_run w ?st r (parse_loop w ?st r)"
                using "2.IH"(2) nh ni v Cons Inr nv False by simp
              then have "loop_run w st (item_tokens (ValOpt val n x) @ r) (parse_loop w ?st r)"
                using loop_run.Step [of "ValOpt val n x" st w r] v n False by simp
              with nh ni v Cons Inr nv False a show ?thesis
                by (simp add: parse_loop_unfold)
            qed
          qed
        qed
      next
        case nv: False
        show ?thesis
        proof (cases "is_default val")
          case d: True
          show ?thesis
          proof (cases "default_specified st")
            case True
            with nh ni nv d show ?thesis by (simp add: parse_loop_unfold loop_run.DefaultDup)
          next
            case ns: False
            show ?thesis
            proof (cases rest)
              case Nil
              with nh ni nv d ns show ?thesis
                by (simp add: parse_loop_unfold loop_run.DefaultArg)
            next
              case (Cons a r)
              let ?st = "st\<lparr>default_specified := True, default_value := Some (make_data w a)\<rparr>"
              have "loop_run w ?st r (parse_loop w ?st r)"
                using "2.IH"(3) nh ni nv d ns Cons by simp
              then have "loop_run w st (item_tokens (DefaultOpt val a) @ r) (parse_loop w ?st r)"
                using loop_run.Step [of "DefaultOpt val a" st w r] d ns by simp
              with nh ni nv d ns Cons show ?thesis by (simp add: parse_loop_unfold)
            qed
          qed
        next
          case nd: False
          show ?thesis
          proof (cases "is_output val")
            case out: True
            show ?thesis
            proof (cases "output_specified st")
              case True
              with nh ni nv nd out show ?thesis
                by (simp add: parse_loop_unfold loop_run.OutputDup)
            next
              case ns: False
              show ?thesis
              proof (cases rest)
                case Nil
                with nh ni nv nd out ns show ?thesis
                  by (simp add: parse_loop_unfold loop_run.OutputArg)
              next
                case (Cons a r)
                let ?st = "assign_out (Owned a (can_open w a))
                  (st\<lparr>output_specified := True, trace := trace st @ [Opened a (can_open w a)]\<rparr>)"
                have "loop_run w ?st r (parse_loop w ?st r)"
                  using "2.IH"(4) nh ni nv nd out ns Cons by simp
                then have "loop_run w st (item_tokens (OutputOpt val a) @ r) (parse_loop w ?st r)"
                  using loop_run.Step [of "OutputOpt val a" st w r] out ns by simp
                with nh ni nv nd out ns Cons show ?thesis by (simp add: parse_loop_unfold)
              qed
            qed
          next
            case no: False
            have nf: "\<not> recognized_flag val"
              using nh ni nv nd no by (simp add: recognized_flag_def)
            show ?thesis
            proof (cases "input_specified st")
              case True
              have "loop_run w st (val # rest) (Threw (''Unknown extra parameter '' @ val) st)"
                using nf True by (rule loop_run.Extra)
              with nh ni nv nd no True show ?thesis
                by (simp add: parse_loop_unfold)
            next
              case False
              let ?st = "st\<lparr>input_specified := True, input := val\<rparr>"
              have "loop_run w ?st rest (parse_loop w ?st rest)"
                using "2.IH"(5) nh ni nv nd no False by simp
              then have "loop_run w st (item_tokens (Template val) @ rest) (parse_loop w ?st rest)"
                using loop_run.Step [of "Template val" st w rest] nf False by simp
              with nh ni nv nd no False show ?thesis by (simp add: parse_loop_unfold)
            qed
          qed
        qed
      qed
    qed
  qed
qed

subsection \<open>What a run of the loop preserves\<close>

lemma stdout_of_append: "stdout_of (xs @ ys) = stdout_of xs @ stdout_of ys"
  by (induction xs rule: stdout_of.induct) simp_all

lemma stderr_of_append: "stderr_of (xs @ ys) = stderr_of xs @ stderr_of ys"
  by (induction xs rule: stderr_of.induct) simp_all

lemma destroy_sink_quiet:
  "stdout_of (destroy_sink s) = []" "stderr_of (destroy_sink s) = []"
  "filter is_opened (destroy_sink s) = []"
  by (cases s; simp)+

lemma write_sink_quiet:
  "stderr_of (write_sink s t) = []"
  "filter is_opened (write_sink s t) = []" "filter is_released (write_sink s t) = []"
  by (cases s; simp)+

lemma item_effect_stderr: "stderr_of (trace (item_effect w st item)) = stderr_of (trace st)"
  by (cases item) (simp_all add: assign_out_def stderr_of_append destroy_sink_quiet)

lemma item_effect_stdout: "stdout_of (trace (item_effect w st item)) = stdout_of (trace st)"
  by (cases item) (simp_all add: assign_out_def stdout_of_append destroy_sink_quiet)

lemma item_effect_bindings:
  "map_of (args st) n = Some d \<Longrightarrow> map_of (args (item_effect w st item)) n = Some d"
  by (cases item) (simp_all add: assign_out_def map_add_Some_iff)

lemma item_effect_sink_inv:
  "sink_inv st \<Longrightarrow> fits st item \<Longrightarrow> sink_inv (item_effect w st item)"
  by (cases item)
     (auto simp: sink_inv_def assign_out_def opens_def releases_def split: sink.splits)

lemma run_exit_code: "loop_run w st toks r \<Longrightarrow> r = Exited c st' \<Longrightarrow> c = 0"
  by (induction rule: loop_run.induct) simp_all

lemma run_stderr: "loop_run w st toks r \<Longrightarrow> stderr_of (trace (state_of r)) = stderr_of (trace st)"
  by (induction rule: loop_run.induct) (simp_all add: item_effect_stderr stderr_of_append)

lemma run_stdout:
  "loop_run w st toks r \<Longrightarrow>
   stdout_of (trace (state_of r))
     = stdout_of (trace st) @ (if exited r then help_text @ ''\<newline>'' else [])"
  by (induction rule: loop_run.induct) (simp_all add: item_effect_stdout stdout_of_append)

lemma run_bindings:
  "loop_run w st toks r \<Longrightarrow> map_of (args st) n = Some d \<Longrightarrow>
   map_of (args (state_of r)) n = Some d"
  by (induction rule: loop_run.induct) (simp_all add: item_effect_bindings)

lemma run_sink_inv: "loop_run w st toks r \<Longrightarrow> sink_inv st \<Longrightarrow> sink_inv (state_of r)"
proof (induction rule: loop_run.induct)
  case (Help val st rest)
  then show ?case by (simp add: sink_inv_def opens_def releases_def split: sink.splits)
qed (simp_all add: item_effect_sink_inv)

lemma run_extra:
  "loop_run w st toks r \<Longrightarrow> r = Threw (''Unknown extra parameter '' @ v) st' \<Longrightarrow>
   input_specified st' \<and> \<not> recognized_flag v \<and>
   (\<exists>pre post. toks = pre @ v # post \<and> parse_loop w st pre = Returned st')"
proof (induction rule: loop_run.induct)
  case (Extra val st rest)
  then have "v = val" "st' = st" by simp_all
  moreover have "val # rest = [] @ val # rest \<and> parse_loop w st [] = Returned st" by simp
  ultimately show ?case using Extra by blast
next
  case (Step item st rest r)
  then obtain pre post where pp: "rest = pre @ v # post"
    "parse_loop w (item_effect w st item) pre = Returned st'"
    and rest: "input_specified st'" "\<not> recognized_flag v"
    by blast
  have "parse_loop w st (item_tokens item @ pre) = Returned st'"
    using loop_item [OF Step.hyps(1,2), of w pre] pp(2) by simp
  moreover have "item_tokens item @ rest = (item_tokens item @ pre) @ v # post"
    using pp(1) by simp
  ultimately show ?case using rest by blast
qed simp_all

subsection \<open>Final states of valid invocations\<close>

lemmas flag_defs = recognized_flag_def is_help_def is_input_def is_val_def is_default_def is_output_def

lemma loop_template:
  "\<not> input_specified st \<Longrightarrow> \<not> recognized_flag val \<Longrightarrow>
   parse_loop w st (val # rest) = parse_loop w (st\<lparr>input_specified := True, input := val\<rparr>) rest"
  using loop_item [of "Template val" st w rest] by simp

lemma effect_input_kept:
  "filter is_source items = [] \<Longrightarrow> input (foldl (item_effect w) st items) = input st"
proof (induction items arbitrary: st)
  case Nil
  then show ?case by simp
next
  case (Cons item items)
  then show ?case by (cases item) (simp_all add: assign_out_def)
qed

lemma effect_input_file:
  "length (filter is_source items) \<le> 1 \<Longrightarrow> InputFile f p \<in> set items \<Longrightarrow>
   input (foldl (item_effect w) st items) = read_file w p"
proof (induction items arbitrary: st)
  case Nil
  then show ?case by simp
next
  case (Cons item items)
  show ?case
  proof (cases "is_source item")
    case True
    with Cons.prems(1) have none: "filter is_source items = []" by simp
    then have "InputFile f p \<notin> set items"
      by (auto simp: filter_empty_conv)
    with Cons.prems(2) have "item = InputFile f p" by simp
    with none show ?thesis by (simp add: effect_input_kept)
  next
    case False
    with Cons.prems have "length (filter is_source items) \<le> 1" "InputFile f p \<in> set items"
      by auto
    from Cons.IH [OF this] show ?thesis by simp
  qed
qed

lemma main_compiles:
  "parse_args w argv = Returned st \<Longrightarrow>
   Compile (input st) (map fst (bucket_order w (args st))) \<in> set (events (main w argv))"
  by (simp add: main_def Let_def split: sum.splits)

lemma parse_args_after_loop:
  "parse_loop w initial_state (drop 1 argv) = Returned st \<Longrightarrow>
   parse_args w argv = finish_args st"
  by (simp add: parse_args_def)

lemma parse_loop_trace_initial:
  assumes "parse_loop w initial_state pre = Returned st"
  shows "stdout_of (trace st) = []" and "stderr_of (trace st) = []"
  using run_stdout [OF parse_loop_run, of w initial_state pre]
    run_stderr [OF parse_loop_run, of w initial_state pre] assms
  by (simp_all add: initial_state_def)

subsection \<open>parse_args and main\<close>

lemma finish_args_trace:
  "stderr_of (trace (state_of (finish_args st))) = stderr_of (trace st)"
  "stdout_of (trace (state_of (finish_args st))) = stdout_of (trace st)"
  "\<not> exited (finish_args st)"
  by (simp_all add: finish_args_def Let_def assign_out_def stderr_of_append stdout_of_append
        destroy_sink_quiet)

lemma parse_args_stderr: "stderr_of (trace (state_of (parse_args w argv))) = []"
proof -
  have "stderr_of (trace (state_of (parse_loop w initial_state (drop 1 argv)))) = []"
    using run_stderr [OF parse_loop_run, of w initial_state "drop 1 argv"]
    by (simp add: initial_state_def)
  then show ?thesis
    by (cases "parse_loop w initial_state (drop 1 argv)")
       (simp_all add: parse_args_def finish_args_trace)
qed

lemma parse_args_exit_code: "parse_args w argv = Exited c st \<Longrightarrow> c = 0"
proof (cases "parse_loop w initial_state (drop 1 argv)")
  case (Returned st')
  assume "parse_args w argv = Exited c st"
  with Returned finish_args_trace(3) [of st'] show ?thesis
    by (simp add: parse_args_def)
next
  case (Threw msg st')
  assume "parse_args w argv = Exited c st"
  with Threw show ?thesis by (simp add: parse_args_def)
next
  case (Exited c' st')
  assume "parse_args w argv = Exited c st"
  with Exited have "parse_loop w initial_state (drop 1 argv) = Exited c st"
    by (simp add: parse_args_def)
  from run_exit_code [OF parse_loop_run this] show ?thesis .
qed

lemmas toy_eval = parse_args_def parse_loop_unfold finish_args_def Let_def assign_out_def
  flag_defs initial_state_def toy_world_def parse_val_def

lemma effect_out_kept:
  "filter is_output_item items = [] \<Longrightarrow>
   out (foldl (item_effect w) st items) = out st \<and>
   trace (foldl (item_effect w) st items) = trace st \<and>
   output_specified (foldl (item_effect w) st items) = output_specified st"
proof (induction items arbitrary: st)
  case Nil
  then show ?case by simp
next
  case (Cons item items)
  then show ?case by (cases item) simp_all
qed

lemma effect_output_file:
  "length (filter is_output_item items) \<le> 1 \<Longrightarrow> OutputOpt f p \<in> set items \<Longrightarrow>
   out st = Null \<Longrightarrow>
   out (foldl (item_effect w) st items) = Owned p (can_open w p) \<and>
   trace (foldl (item_effect w) st items) = trace st @ [Opened p (can_open w p)] \<and>
   output_specified (foldl (item_effect w) st items)"
proof (induction items arbitrary: st)
  case Nil
  then show ?case by simp
next
  case (Cons item items)
  show ?case
  proof (cases "is_output_item item")
    case True
    with Cons.prems(1) have none: "filter is_output_item items = []" by simp
    then have "OutputOpt f p \<notin> set items"
      by (auto simp: filter_empty_conv)
    with Cons.prems(2) have "item = OutputOpt f p" by simp
    with none Cons.prems(3) show ?thesis
      by (simp add: effect_out_kept assign_out_def)
  next
    case False
    with Cons.prems have a: "length (filter is_output_item items) \<le> 1"
      "OutputOpt f p \<in> set items"
      by auto
    have "out (item_effect w st item) = Null \<and> trace (item_effect w st item) = trace st"
      using False Cons.prems(3) by (cases item) simp_all
    with Cons.IH [OF a, of "item_effect w st item"] show ?thesis by simp
  qed
qed

lemma finish_args_owned:
  "finish_args st = Returned st' \<Longrightarrow> out st = Owned p ok \<Longrightarrow> trace st = [Opened p ok] \<Longrightarrow>
   output_specified st \<Longrightarrow> out st' = Owned p ok \<and> trace st' = [Opened p ok]"
  by (auto simp: finish_args_def Let_def assign_out_def split: if_splits)

subsection \<open>The output stream across parse_args and main\<close>

lemma sink_inv_initial: "sink_inv initial_state"
  by (simp add: sink_inv_def initial_state_def opens_def releases_def)

lemma finish_args_sink_inv: "sink_inv st \<Longrightarrow> sink_inv (state_of (finish_args st))"
  by (auto simp: finish_args_def Let_def assign_out_def sink_inv_def opens_def releases_def
           split: sink.splits)

lemma parse_args_sink_inv: "sink_inv (state_of (parse_args w argv))"
proof -
  have "sink_inv (state_of (parse_loop w initial_state (drop 1 argv)))"
    using parse_loop_run sink_inv_initial by (rule run_sink_inv)
  then show ?thesis
    by (cases "parse_loop w initial_state (drop 1 argv)")
       (simp_all add: parse_args_def finish_args_sink_inv)
qed

lemma main_events_shape:
  assumes "\<not> exited (parse_args w argv)"
  shows "\<exists>mid. events (main w argv)
           = trace (state_of (parse_args w argv)) @ mid
               @ destroy_sink (out (state_of (parse_args w argv))) \<and>
         filter is_opened mid = [] \<and> filter is_released mid = []"
proof (cases "parse_args w argv")
  case (Returned st)
  show ?thesis
  proof (cases "get_interpolation w (input st) (map fst (bucket_order w (args st)))")
    case (Inl e)
    with Returned show ?thesis by (simp add: main_def Let_def)
  next
    case (Inr t)
    show ?thesis
    proof (cases "construct_with w t (default_value st) (bucket_order w (args st))")
      case (Inl e)
      with Returned \<open>get_interpolation w (input st) (map fst (bucket_order w (args st))) = Inr t\<close>
      show ?thesis by (simp add: main_def Let_def)
    next
      case (Inr rendered)
      let ?mid = "[Compile (input st) (map fst (bucket_order w (args st))), Render]
                    @ write_sink (out st) rendered"
      have "events (main w argv) = trace st @ ?mid @ destroy_sink (out st)"
        using Returned Inr
          \<open>get_interpolation w (input st) (map fst (bucket_order w (args st))) = Inr t\<close>
        by (simp add: main_def Let_def)
      moreover have "filter is_opened ?mid = [] \<and> filter is_released ?mid = []"
        by (simp add: write_sink_quiet)
      ultimately show ?thesis using Returned by auto
    qed
  qed
next
  case (Threw msg st)
  then show ?thesis by (simp add: main_def)
next
  case (Exited c st)
  with assms show ?thesis by simp
qed

subsection \<open>Decimal output\<close>

declare show_nat.simps [simp del]

lemma read_nat_snoc: "read_nat (s @ [c]) = 10 * read_nat s + (of_char c - 48)"
  by (simp add: read_nat_def)

lemma read_nat_digit: "d < 10 \<Longrightarrow> read_nat [char_of (48 + d)] = d"
  by (simp add: read_nat_def)

lemma read_show_nat: "read_nat (show_nat n) = n"
proof (induction n rule: show_nat.induct)
  case (1 n)
  show ?case
  proof (cases "n < 10")
    case True
    then show ?thesis by (subst show_nat.simps) (simp add: read_nat_digit)
  next
    case False
    have d: "of_char (char_of (48 + n mod 10)) - 48 = n mod 10"
      by (simp add: of_char_of)
    from False have "read_nat (show_nat n)
        = 10 * read_nat (show_nat (n div 10)) + (of_char (char_of (48 + n mod 10)) - 48)"
      by (subst show_nat.simps) (simp add: read_nat_snoc)
    with 1 False d show ?thesis by simp
  qed
qed

lemma read_show_int: "0 \<le> i \<Longrightarrow> read_nat (show_int i) = nat i"
  by (simp add: show_int_def read_show_nat)

section \<open>Valid invocations\<close>

text \<open>
  Claim C1. For every argument vector made of exactly one template source (a bare
  template or \<^verbatim>\<open>-i <file>\<close>), exactly one \<^verbatim>\<open>-d <value>\<close> and any number of
  \<^verbatim>\<open>-v NAME=VALUE\<close> with pairwise distinct names (and at most one \<^verbatim>\<open>-o <file>\<close>), in any
  order, \<^verbatim>\<open>parse_args\<close> returns without throwing, and the bindings it has stored are
  exactly the supplied names, each bound to \<^verbatim>\<open>make_data\<close> of the text after the first
  \<^verbatim>\<open>=\<close>.
\<close>

theorem parse_args_valid_values:
  assumes "valid_invocation items"
  shows "\<exists>st. parse_args w (prog # tokens_of items) = Returned st \<and>
           args st = map (\<lambda>(n, v). (n, make_data w v)) (val_pairs items) \<and>
           dom (map_of (args st)) = set (map fst (val_pairs items)) \<and>
           (\<forall>(n, v) \<in> set (val_pairs items). map_of (args st) n = Some (make_data w v))"
proof -
  let ?st = "foldl (item_effect w) initial_state items"
  let ?bs = "map (\<lambda>(n, v). (n, make_data w v)) (val_pairs items)"
  from parse_args_valid(1) [OF assms, of w prog] parse_args_valid(2) [OF assms, of w]
  obtain st where run: "parse_args w (prog # tokens_of items) = Returned st"
    and fin: "finish_args ?st = Returned st"
    by auto
  have args: "args st = ?bs"
    using finish_args_args [OF fin] by (simp add: effect_args initial_state_def)
  have dist: "distinct (map fst (val_pairs items))"
    using assms by (simp add: valid_invocation_def)
  have each: "\<forall>(n, v) \<in> set (val_pairs items). map_of ?bs n = Some (make_data w v)"
    using map_of_coerced [OF dist] by blast
  show ?thesis using run args dom_coerced [of "make_data w" "val_pairs items"] each by simp
qed

theorem parse_args_valid_values_witness:
  "valid_invocation
     [ValOpt ''-v'' ''first'' ''john'', Template ''Hello, {$first} {$last}'',
      DefaultOpt ''-d'' [], ValOpt ''--val'' ''last'' ''doe=x''] \<and>
   (\<exists>st. parse_args toy_world
           [''siplus'', ''-v'', ''first=john'', ''Hello, {$first} {$last}'', ''-d'', [],
            ''--val'', ''last=doe=x''] = Returned st \<and>
         args st = [(''first'', ''john''), (''last'', ''doe=x'')])"
proof -
  let ?items = "[ValOpt ''-v'' ''first'' ''john'', Template ''Hello, {$first} {$last}'',
      DefaultOpt ''-d'' [], ValOpt ''--val'' ''last'' ''doe=x'']"
  have v: "valid_invocation ?items"
    by (simp add: valid_invocation_def recognized_flag_def is_help_def is_input_def
        is_val_def is_default_def is_output_def)
  from parse_args_valid_values [OF v, of toy_world "''siplus''"] v show ?thesis
    by (auto simp: tokens_of_def toy_make_data)
qed

section \<open>Tokens that are not flags\<close>

text \<open>
  Claim C9. While the input is unset, a token that is none of the ten flag spellings,
  also one that looks like a flag such as \<^verbatim>\<open>-x\<close> or \<^verbatim>\<open>--foo\<close>, is taken as the inline
  template and the loop goes on. The error \<^verbatim>\<open>Unknown extra parameter\<close> is only thrown at
  a token that the loop reaches with the input already set.
\<close>

theorem unrecognized_token_is_template:
  "(\<not> input_specified st \<and> \<not> recognized_flag val \<longrightarrow>
      parse_loop w st (val # rest)
        = parse_loop w (st\<lparr>input_specified := True, input := val\<rparr>) rest) \<and>
   (parse_loop w st toks = Threw (''Unknown extra parameter '' @ v) st' \<longrightarrow>
      input_specified st' \<and> \<not> recognized_flag v \<and>
      (\<exists>pre post. toks = pre @ v # post \<and> parse_loop w st pre = Returned st'))"
  using loop_template [of st val w rest]
    run_extra [OF parse_loop_run, of w st toks v st']
  by blast

theorem unrecognized_token_is_template_witness:
  "\<not> input_specified (initial_state :: string parse_state) \<and> \<not> recognized_flag ''-x'' \<and>
   parse_loop toy_world initial_state [''-x'', ''--foo'']
     = parse_loop toy_world (initial_state\<lparr>input_specified := True, input := ''-x''\<rparr>) [''--foo''] \<and>
   parse_loop toy_world initial_state [''-x'', ''--foo'']
     = Threw (''Unknown extra parameter '' @ ''--foo'')
         (initial_state\<lparr>input_specified := True, input := ''-x''\<rparr>) \<and>
   input_specified (initial_state\<lparr>input_specified := True, input := ''-x''\<rparr> :: string parse_state)"
proof -
  let ?st = "initial_state\<lparr>input_specified := True, input := ''-x''\<rparr> :: string parse_state"
  have a: "\<not> input_specified (initial_state :: string parse_state)" "\<not> recognized_flag ''-x''"
    "\<not> recognized_flag ''--foo''"
    by (simp_all add: initial_state_def flag_defs)
  have b: "parse_loop toy_world ?st [''--foo''] = Threw (''Unknown extra parameter '' @ ''--foo'') ?st"
    using a(3) by (simp add: parse_loop_unfold recognized_flag_def)
  from unrecognized_token_is_template
         [of initial_state "''-x''" toy_world "[''--foo'']" "[''-x'', ''--foo'']" "''--foo''" ?st]
    a b
  show ?thesis by simp
qed

section \<open>An input file that cannot be read\<close>

text \<open>
  Claim C10. Giving \<^verbatim>\<open>-i <file>\<close> with a file that does not exist or cannot be read
  does not make parsing fail: \<^verbatim>\<open>read_file\<close> returns the empty string, \<^verbatim>\<open>parse_args\<close>
  returns with the empty template as input, and \<^verbatim>\<open>main\<close> goes on to compile it.
\<close>

theorem unreadable_input_file_is_empty_template:
  assumes "valid_invocation items" and "InputFile f p \<in> set items"
    and "file_contents w p = None"
  shows "read_file w p = [] \<and>
         (\<exists>st. parse_args w (prog # tokens_of items) = Returned st \<and> input st = [] \<and>
            Compile [] (map fst (bucket_order w (args st)))
              \<in> set (events (main w (prog # tokens_of items))))"
proof -
  let ?st = "foldl (item_effect w) initial_state items"
  have empty: "read_file w p = []"
    using assms(3) by (simp add: read_file_def)
  from parse_args_valid(1) [OF assms(1), of w prog] parse_args_valid(2) [OF assms(1), of w]
  obtain st where run: "parse_args w (prog # tokens_of items) = Returned st"
    and fin: "finish_args ?st = Returned st"
    by auto
  have "input ?st = read_file w p"
    using assms(1,2) by (intro effect_input_file) (simp_all add: valid_invocation_def)
  with finish_args_args [OF fin] empty have inp: "input st = []" by simp
  from main_compiles [OF run] inp empty run show ?thesis by auto
qed

theorem unreadable_input_file_is_empty_template_witness:
  "valid_invocation [DefaultOpt ''-d'' ''x'', InputFile ''-i'' ''missing.txt''] \<and>
   InputFile ''-i'' ''missing.txt'' \<in> set [DefaultOpt ''-d'' ''x'', InputFile ''-i'' ''missing.txt''] \<and>
   file_contents toy_world ''missing.txt'' = None \<and>
   (\<exists>st. parse_args toy_world [''siplus'', ''-d'', ''x'', ''-i'', ''missing.txt''] = Returned st \<and>
      input st = [] \<and>
      Compile [] (map fst (bucket_order toy_world (args st)))
        \<in> set (events (main toy_world [''siplus'', ''-d'', ''x'', ''-i'', ''missing.txt''])))"
proof -
  let ?items = "[DefaultOpt ''-d'' ''x'', InputFile ''-i'' ''missing.txt'']"
  have v: "valid_invocation ?items"
    by (simp add: valid_invocation_def flag_defs)
  have m: "InputFile ''-i'' ''missing.txt'' \<in> set ?items" by simp
  have n: "file_contents toy_world ''missing.txt'' = None" by (simp add: toy_world_def)
  from unreadable_input_file_is_empty_template [OF v m n, of "''siplus''"] v m n
  show ?thesis
    by (auto simp: tokens_of_def)
qed

section \<open>The checks after the loop\<close>

text \<open>
  Claim C7 says that, once every token has been consumed without \<^verbatim>\<open>-h\<close>, parsing
  fails with \<^verbatim>\<open>No input specified\<close> whenever no input was given and with
  \<^verbatim>\<open>No default value specified\<close> whenever \<^verbatim>\<open>-d\<close> was not given. The two assertions run
  in that order, so with neither given the first one throws and the message about the
  default is never produced: for \<^verbatim>\<open>siplus -v a=1\<close> the loop consumes every token, no
  default was given, and the error is \<^verbatim>\<open>No input specified (-h for help)\<close>.
\<close>

theorem missing_default_counterexample:
  "parse_loop toy_world initial_state (drop 1 [''siplus'', ''-v'', ''a=1''])
     = Returned (initial_state\<lparr>args := [(''a'', ''1'')]\<rparr>) \<and>
   \<not> default_specified (initial_state\<lparr>args := [(''a'', ''1'')]\<rparr> :: string parse_state) \<and>
   parse_args toy_world [''siplus'', ''-v'', ''a=1'']
     = Threw ''No input specified (-h for help)''
         (assign_out Shared (initial_state\<lparr>args := [(''a'', ''1'')]\<rparr>)) \<and>
   parse_args toy_world [''siplus'', ''-v'', ''a=1'']
     \<noteq> Threw ''No default value specified''
         (assign_out Shared (initial_state\<lparr>args := [(''a'', ''1'')]\<rparr>))"
proof -
  have pv: "parse_val ''a=1'' = Inr (''a'', ''1'')"
    by (simp add: parse_val_def)
  have l: "parse_loop toy_world initial_state (drop 1 [''siplus'', ''-v'', ''a=1''])
     = Returned (initial_state\<lparr>args := [(''a'', ''1'')]\<rparr>)"
    by (simp add: parse_loop_unfold flag_defs pv initial_state_def toy_world_def)
  then show ?thesis
    by (simp add: parse_args_def finish_args_def Let_def assign_out_def initial_state_def)
qed

text \<open>
  Claim C7, as amended. After the loop has consumed every token without \<^verbatim>\<open>-h\<close> and
  without a throw: if no input was given, \<^verbatim>\<open>parse_args\<close> throws
  \<^verbatim>\<open>No input specified (-h for help)\<close>; if an input was given and no default, it throws
  \<^verbatim>\<open>No default value specified\<close>; and it returns exactly when both were given. In each
  case the output stream has been set to standard output before the check, unless
  \<^verbatim>\<open>-o\<close> set it.
\<close>

theorem required_settings_checked:
  assumes "parse_loop w initial_state (drop 1 argv) = Returned st"
  shows "(\<not> input_specified st \<longrightarrow>
            parse_args w argv
              = Threw ''No input specified (-h for help)''
                  (if output_specified st then st else assign_out Shared st)) \<and>
         (input_specified st \<and> \<not> default_specified st \<longrightarrow>
            parse_args w argv
              = Threw ''No default value specified''
                  (if output_specified st then st else assign_out Shared st)) \<and>
         (input_specified st \<and> default_specified st \<longrightarrow>
            parse_args w argv
              = Returned (if output_specified st then st else assign_out Shared st)) \<and>
         ((\<exists>st'. parse_args w argv = Returned st') \<longleftrightarrow>
            input_specified st \<and> default_specified st)"
  using parse_args_after_loop [OF assms]
  by (simp add: finish_args_def Let_def assign_out_def)

theorem required_settings_checked_witness:
  "parse_loop toy_world initial_state (drop 1 [''siplus'', ''-v'', ''a=1'', ''-o'', ''out.txt''])
     = Returned (initial_state\<lparr>out := Owned ''out.txt'' True, args := [(''a'', ''1'')],
                  output_specified := True, trace := [Opened ''out.txt'' True]\<rparr>) \<and>
   parse_args toy_world [''siplus'', ''-v'', ''a=1'', ''-o'', ''out.txt'']
     = Threw ''No input specified (-h for help)''
         (initial_state\<lparr>out := Owned ''out.txt'' True, args := [(''a'', ''1'')],
                  output_specified := True, trace := [Opened ''out.txt'' True]\<rparr>) \<and>
   parse_loop toy_world initial_state (drop 1 [''siplus'', ''t''])
     = Returned (initial_state\<lparr>input := ''t'', input_specified := True\<rparr>) \<and>
   parse_args toy_world [''siplus'', ''t'']
     = Threw ''No default value specified''
         (assign_out Shared (initial_state\<lparr>input := ''t'', input_specified := True\<rparr>)) \<and>
   parse_loop toy_world initial_state (drop 1 [''siplus'', ''t'', ''-d'', ''x''])
     = Returned (initial_state\<lparr>input := ''t'', default_value := Some ''x'',
                  input_specified := True, default_specified := True\<rparr>) \<and>
   parse_args toy_world [''siplus'', ''t'', ''-d'', ''x'']
     = Returned (assign_out Shared (initial_state\<lparr>input := ''t'', default_value := Some ''x'',
                  input_specified := True, default_specified := True\<rparr>))"
proof -
  let ?s1 = "initial_state\<lparr>out := Owned ''out.txt'' True, args := [(''a'', ''1'')],
                  output_specified := True, trace := [Opened ''out.txt'' True]\<rparr> :: string parse_state"
  let ?s2 = "initial_state\<lparr>input := ''t'', input_specified := True\<rparr> :: string parse_state"
  let ?s3 = "initial_state\<lparr>input := ''t'', default_value := Some ''x'',
                  input_specified := True, default_specified := True\<rparr> :: string parse_state"
  have pv: "parse_val ''a=1'' = Inr (''a'', ''1'')"
    by (simp add: parse_val_def)
  have l1: "parse_loop toy_world initial_state (drop 1 [''siplus'', ''-v'', ''a=1'', ''-o'', ''out.txt'']) = Returned ?s1"
    by (simp add: parse_loop_unfold flag_defs pv initial_state_def assign_out_def toy_world_def)
  have l2: "parse_loop toy_world initial_state (drop 1 [''siplus'', ''t'']) = Returned ?s2"
    by (simp add: parse_loop_unfold flag_defs initial_state_def)
  have l3: "parse_loop toy_world initial_state (drop 1 [''siplus'', ''t'', ''-d'', ''x'']) = Returned ?s3"
    by (simp add: parse_loop_unfold flag_defs initial_state_def toy_world_def)
  from required_settings_checked [OF l1] required_settings_checked [OF l2]
    required_settings_checked [OF l3] l1 l2 l3
  show ?thesis by (simp add: initial_state_def)
qed

section \<open>The help flag\<close>

text \<open>
  Claim C5 says that \<^verbatim>\<open>-h\<close> or \<^verbatim>\<open>--help\<close> anywhere in the argument vector prints the
  usage text and exits with status 0. The loop reads the tokens from left to right and
  stops at the first throw, so a help flag behind an offending token is never reached:
  \<^verbatim>\<open>siplus a b -h\<close> ends with \<^verbatim>\<open>Unknown extra parameter b\<close> and status 2, and prints no
  usage text.
\<close>

theorem help_anywhere_counterexample:
  "''-h'' \<in> set [''siplus'', ''a'', ''b'', ''-h''] \<and>
   exit_code (main toy_world [''siplus'', ''a'', ''b'', ''-h'']) = 2 \<and>
   stdout_of (events (main toy_world [''siplus'', ''a'', ''b'', ''-h''])) = [] \<and>
   stderr_of (events (main toy_world [''siplus'', ''a'', ''b'', ''-h'']))
     = ''error: Unknown extra parameter b\<newline>''"
proof -
  have "parse_args toy_world [''siplus'', ''a'', ''b'', ''-h'']
          = Threw ''Unknown extra parameter b'' (initial_state\<lparr>input := ''a'', input_specified := True\<rparr>)"
    by (simp add: parse_args_def parse_loop_unfold flag_defs initial_state_def)
  then show ?thesis
    by (simp add: main_def initial_state_def)
qed

text \<open>
  Claim C5, as amended. If the tokens before a \<^verbatim>\<open>-h\<close> or \<^verbatim>\<open>--help\<close> are consumed by
  the loop without a throw, so that the help flag is reached as a flag and not as the
  argument of a flag before it, the program prints the usage text and exits with
  status 0 at once, whatever follows and whether or not the input and \<^verbatim>\<open>-d\<close> were given.
\<close>

theorem help_when_reached:
  assumes "parse_loop w initial_state pre = Returned st" and "is_help h"
  shows "parse_args w (prog # pre @ h # post)
           = Exited 0 (st\<lparr>trace := trace st @ [Stdout (help_text @ ''\<newline>'')]\<rparr>) \<and>
         exit_code (main w (prog # pre @ h # post)) = 0 \<and>
         stdout_of (events (main w (prog # pre @ h # post))) = help_text @ ''\<newline>'' \<and>
         stderr_of (events (main w (prog # pre @ h # post))) = []"
proof -
  have "parse_loop w initial_state (pre @ h # post) = parse_loop w st (h # post)"
    using assms(1) by (rule parse_loop_append)
  then have run: "parse_args w (prog # pre @ h # post)
           = Exited 0 (st\<lparr>trace := trace st @ [Stdout (help_text @ ''\<newline>'')]\<rparr>)"
    using assms(2) by (simp add: parse_args_def parse_loop_unfold)
  then show ?thesis
    using parse_loop_trace_initial [OF assms(1)]
    by (simp add: main_def stdout_of_append stderr_of_append)
qed

theorem help_when_reached_witness:
  "parse_loop toy_world initial_state [''-v'', ''a=1'']
     = Returned (initial_state\<lparr>args := [(''a'', ''1'')]\<rparr>) \<and> is_help ''--help'' \<and>
   exit_code (main toy_world [''siplus'', ''-v'', ''a=1'', ''--help'', ''b'', ''c'', ''-d'']) = 0 \<and>
   stdout_of (events (main toy_world [''siplus'', ''-v'', ''a=1'', ''--help'', ''b'', ''c'', ''-d'']))
     = help_text @ ''\<newline>''"
proof -
  have pv: "parse_val ''a=1'' = Inr (''a'', ''1'')"
    by (simp add: parse_val_def)
  have l: "parse_loop toy_world initial_state [''-v'', ''a=1'']
     = Returned (initial_state\<lparr>args := [(''a'', ''1'')]\<rparr>)"
    by (simp add: parse_loop_unfold flag_defs pv initial_state_def toy_world_def)
  have h: "is_help ''--help''" by (simp add: is_help_def)
  from help_when_reached [OF l h, of "''siplus''" "[''b'', ''c'', ''-d'']"] l h
  show ?thesis by simp
qed

section \<open>Duplicate names\<close>

text \<open>
  Claim C6. Two \<^verbatim>\<open>-v\<close> options with the same name make parsing fail with the error
  \<^verbatim>\<open>value NAME was already specified\<close>: when the loop has processed the first option
  and reaches the second one, it throws, \<^verbatim>\<open>parse_args\<close> does not return, \<^verbatim>\<open>main\<close> ends
  with status 2, and the name is still bound to the first value.
\<close>

theorem duplicate_value_rejected:
  assumes "parse_loop w initial_state pre = Returned st1"
    and "is_val f1" and "is_val f2" and "CHR ''='' \<notin> set n"
    and "parse_loop w initial_state (pre @ f1 # (n @ CHR ''='' # v1) # mid) = Returned st2"
  shows "parse_args w (prog # pre @ f1 # (n @ CHR ''='' # v1) # mid
                          @ f2 # (n @ CHR ''='' # v2) # post)
           = Threw (''value '' @ n @ '' was already specified'') st2 \<and>
         map_of (args st2) n = Some (make_data w v1) \<and>
         exit_code (main w (prog # pre @ f1 # (n @ CHR ''='' # v1) # mid
                              @ f2 # (n @ CHR ''='' # v2) # post)) = 2"
proof -
  let ?a1 = "n @ CHR ''='' # v1" and ?a2 = "n @ CHR ''='' # v2"
  let ?st = "st1\<lparr>args := args st1 @ [(n, make_data w v1)]\<rparr>"
  have nh: "\<not> is_help f1" "\<not> is_input f1" "\<not> is_help f2" "\<not> is_input f2"
    using assms(2,3) flag_kinds(3) by blast+
  have first: "parse_loop w st1 (f1 # ?a1 # mid) = Returned st2"
    using parse_loop_append [OF assms(1), of "f1 # ?a1 # mid"] assms(5) by simp
  then have new: "map_of (args st1) n = None" and mid: "parse_loop w ?st mid = Returned st2"
    using assms(2,4) nh
    by (auto simp: parse_loop_unfold parse_val_eq split: if_splits)
  have "map_of (args ?st) n = Some (make_data w v1)"
    using new by (simp add: map_add_def)
  from run_bindings [OF parse_loop_run this, of w mid] mid
  have kept: "map_of (args st2) n = Some (make_data w v1)" by simp
  have "parse_loop w initial_state ((pre @ f1 # ?a1 # mid) @ f2 # ?a2 # post)
          = parse_loop w st2 (f2 # ?a2 # post)"
    using assms(5) by (rule parse_loop_append)
  also have "\<dots> = Threw (''value '' @ n @ '' was already specified'') st2"
    using assms(3,4) nh kept by (simp add: parse_loop_unfold parse_val_eq)
  finally have run: "parse_args w (prog # pre @ f1 # ?a1 # mid @ f2 # ?a2 # post)
           = Threw (''value '' @ n @ '' was already specified'') st2"
    by (simp add: parse_args_def)
  show ?thesis
    unfolding run
    using kept run by (simp add: main_def)
qed

theorem duplicate_value_rejected_witness:
  "parse_loop toy_world initial_state [] = Returned initial_state \<and>
   is_val ''-v'' \<and> CHR ''='' \<notin> set ''a'' \<and>
   parse_loop toy_world initial_state ([] @ ''-v'' # (''a'' @ CHR ''='' # ''1'') # [])
     = Returned (initial_state\<lparr>args := [(''a'', ''1'')]\<rparr>) \<and>
   parse_args toy_world [''siplus'', ''-v'', ''a=1'', ''-v'', ''a=2'']
     = Threw ''value a was already specified'' (initial_state\<lparr>args := [(''a'', ''1'')]\<rparr>) \<and>
   exit_code (main toy_world [''siplus'', ''-v'', ''a=1'', ''-v'', ''a=2'']) = 2"
proof -
  have pv: "parse_val ''a=1'' = Inr (''a'', ''1'')"
    by (simp add: parse_val_def)
  have l0: "parse_loop toy_world initial_state [] = Returned (initial_state :: string parse_state)"
    by simp
  have v: "is_val ''-v''" by (simp add: is_val_def)
  have n: "CHR ''='' \<notin> set ''a''" by simp
  have l: "parse_loop toy_world initial_state ([] @ ''-v'' # (''a'' @ CHR ''='' # ''1'') # [])
     = Returned (initial_state\<lparr>args := [(''a'', ''1'')]\<rparr>)"
    by (simp add: parse_loop_unfold flag_defs pv initial_state_def toy_world_def)
  from duplicate_value_rejected [OF l0 v v n l, of "''siplus''" "''2''" "[]"] l0 v n l
  show ?thesis by simp
qed

section \<open>Exit codes\<close>

text \<open>
  Claim C2. The exit code is 0 when \<^verbatim>\<open>parse_args\<close> leaves through the help flag and
  when all stages succeed; it is 2 when \<^verbatim>\<open>parse_args\<close> throws, with the message on
  standard error behind \<^verbatim>\<open>error: \<close>; it is 1 when the engine rejects the template
  (\<^verbatim>\<open>parse error: \<close>) or fails to render it (\<^verbatim>\<open>execution error: \<close>). The three lines
  differ whatever the messages are.
\<close>

theorem exit_codes_and_prefixes:
  "(parse_args w argv = Exited c st \<longrightarrow> exit_code (main w argv) = 0) \<and>
   (parse_args w argv = Threw msg st \<longrightarrow>
      exit_code (main w argv) = 2 \<and>
      stderr_of (events (main w argv)) = ''error: '' @ msg @ ''\<newline>'') \<and>
   (parse_args w argv = Returned st \<and>
    get_interpolation w (input st) (map fst (bucket_order w (args st))) = Inl e \<longrightarrow>
      exit_code (main w argv) = 1 \<and>
      stderr_of (events (main w argv)) = ''parse error: '' @ e @ ''\<newline>'') \<and>
   (parse_args w argv = Returned st \<and>
    get_interpolation w (input st) (map fst (bucket_order w (args st))) = Inr t \<and>
    construct_with w t (default_value st) (bucket_order w (args st)) = Inl e \<longrightarrow>
      exit_code (main w argv) = 1 \<and>
      stderr_of (events (main w argv)) = ''execution error: '' @ e @ ''\<newline>'') \<and>
   (parse_args w argv = Returned st \<and>
    get_interpolation w (input st) (map fst (bucket_order w (args st))) = Inr t \<and>
    construct_with w t (default_value st) (bucket_order w (args st)) = Inr rendered \<longrightarrow>
      exit_code (main w argv) = 0 \<and>
      stderr_of (events (main w argv)) = [] \<and>
      events (main w argv)
        = trace st @ [Compile (input st) (map fst (bucket_order w (args st))), Render]
            @ write_sink (out st) rendered @ destroy_sink (out st)) \<and>
   ''error: '' @ m1 \<noteq> ''parse error: '' @ m2 \<and>
   ''error: '' @ m1 \<noteq> ''execution error: '' @ m3 \<and>
   ''parse error: '' @ m2 \<noteq> ''execution error: '' @ m3"
proof -
  have q: "stderr_of (trace (state_of (parse_args w argv))) = []"
    by (rule parse_args_stderr)
  have a: "parse_args w argv = Exited c st \<longrightarrow> exit_code (main w argv) = 0"
    using parse_args_exit_code [of w argv c st] by (auto simp: main_def)
  have b: "parse_args w argv = Threw msg st \<longrightarrow>
      exit_code (main w argv) = 2 \<and>
      stderr_of (events (main w argv)) = ''error: '' @ msg @ ''\<newline>''"
    using q by (auto simp: main_def stderr_of_append destroy_sink_quiet)
  have c: "parse_args w argv = Returned st \<and>
    get_interpolation w (input st) (map fst (bucket_order w (args st))) = Inl e \<longrightarrow>
      exit_code (main w argv) = 1 \<and>
      stderr_of (events (main w argv)) = ''parse error: '' @ e @ ''\<newline>''"
    using q by (auto simp: main_def Let_def stderr_of_append destroy_sink_quiet)
  have d: "parse_args w argv = Returned st \<and>
    get_interpolation w (input st) (map fst (bucket_order w (args st))) = Inr t \<and>
    construct_with w t (default_value st) (bucket_order w (args st)) = Inl e \<longrightarrow>
      exit_code (main w argv) = 1 \<and>
      stderr_of (events (main w argv)) = ''execution error: '' @ e @ ''\<newline>''"
    using q by (auto simp: main_def Let_def stderr_of_append destroy_sink_quiet)
  have e: "parse_args w argv = Returned st \<and>
    get_interpolation w (input st) (map fst (bucket_order w (args st))) = Inr t \<and>
    construct_with w t (default_value st) (bucket_order w (args st)) = Inr rendered \<longrightarrow>
      exit_code (main w argv) = 0 \<and>
      stderr_of (events (main w argv)) = [] \<and>
      events (main w argv)
        = trace st @ [Compile (input st) (map fst (bucket_order w (args st))), Render]
            @ write_sink (out st) rendered @ destroy_sink (out st)"
    using q by (auto simp: main_def Let_def stderr_of_append destroy_sink_quiet write_sink_quiet)
  show ?thesis by (intro conjI a b c d e) simp_all
qed

theorem exit_codes_and_prefixes_witness:
  "parse_args toy_world [''siplus'', ''--help'']
     = Exited 0 (initial_state\<lparr>trace := [Stdout (help_text @ ''\<newline>'')]\<rparr>) \<and>
   exit_code (main toy_world [''siplus'', ''--help'']) = 0 \<and>
   parse_args toy_world [''siplus'', ''-d'']
     = Threw ''expected argument for -d'' initial_state \<and>
   exit_code (main toy_world [''siplus'', ''-d'']) = 2 \<and>
   stderr_of (events (main toy_world [''siplus'', ''-d'']))
     = ''error: expected argument for -d\<newline>'' \<and>
   exit_code (main toy_world [''siplus'', ''{'', ''-d'', ''x'']) = 1 \<and>
   stderr_of (events (main toy_world [''siplus'', ''{'', ''-d'', ''x'']))
     = ''parse error: unterminated expression\<newline>'' \<and>
   exit_code (main toy_world [''siplus'', ''{$x}'', ''-d'', ''x'']) = 1 \<and>
   stderr_of (events (main toy_world [''siplus'', ''{$x}'', ''-d'', ''x'']))
     = ''execution error: unknown variable x\<newline>'' \<and>
   exit_code (main toy_world [''siplus'', ''{$x}'', ''-d'', ''x'', ''-v'', ''x=1'']) = 0 \<and>
   events (main toy_world [''siplus'', ''{$x}'', ''-d'', ''x'', ''-v'', ''x=1''])
     = [Compile ''{$x}'' [''x''], Render, Stdout ''1'']"
proof -
  let ?s3 = "initial_state\<lparr>input := ''{'', out := Shared, default_value := Some ''x'',
      input_specified := True, default_specified := True\<rparr> :: string parse_state"
  let ?s4 = "initial_state\<lparr>input := ''{$x}'', out := Shared, default_value := Some ''x'',
      input_specified := True, default_specified := True\<rparr> :: string parse_state"
  let ?s5 = "initial_state\<lparr>input := ''{$x}'', out := Shared, default_value := Some ''x'',
      args := [(''x'', ''1'')],
      input_specified := True, default_specified := True\<rparr> :: string parse_state"
  have p1: "parse_args toy_world [''siplus'', ''--help'']
     = Exited 0 (initial_state\<lparr>trace := [Stdout (help_text @ ''\<newline>'')]\<rparr>)"
    by (simp add: parse_args_def parse_loop_unfold is_help_def initial_state_def)
  have p2: "parse_args toy_world [''siplus'', ''-d''] = Threw ''expected argument for -d'' initial_state"
    by (simp add: parse_args_def parse_loop_unfold flag_defs initial_state_def)
  have p3: "parse_args toy_world [''siplus'', ''{'', ''-d'', ''x''] = Returned ?s3"
    by (simp add: toy_eval)
  have p4: "parse_args toy_world [''siplus'', ''{$x}'', ''-d'', ''x''] = Returned ?s4"
    by (simp add: toy_eval)
  have p5: "parse_args toy_world [''siplus'', ''{$x}'', ''-d'', ''x'', ''-v'', ''x=1''] = Returned ?s5"
    by (simp add: toy_eval)
  have e3: "get_interpolation toy_world (input ?s3) (map fst (bucket_order toy_world (args ?s3)))
              = Inl ''unterminated expression''"
    by (simp add: toy_world_def initial_state_def)
  have e4: "get_interpolation toy_world (input ?s4) (map fst (bucket_order toy_world (args ?s4)))
              = Inr ''{$x}''"
    "construct_with toy_world ''{$x}'' (default_value ?s4) (bucket_order toy_world (args ?s4))
              = Inl ''unknown variable x''"
    by (simp_all add: toy_world_def initial_state_def)
  have e5: "get_interpolation toy_world (input ?s5) (map fst (bucket_order toy_world (args ?s5)))
              = Inr ''{$x}''"
    "construct_with toy_world ''{$x}'' (default_value ?s5) (bucket_order toy_world (args ?s5))
              = Inr ''1''"
    by (simp_all add: toy_world_def initial_state_def)
  have b: "bucket_order toy_world bs = bs" for bs :: "(string \<times> string) list"
    by (simp add: toy_world_def)
  note t = exit_codes_and_prefixes [where w = toy_world]
  from t [where argv = "[''siplus'', ''--help'']" and c = 0
         and st = "initial_state\<lparr>trace := [Stdout (help_text @ ''\<newline>'')]\<rparr>"] p1
  have r1: "exit_code (main toy_world [''siplus'', ''--help'']) = 0" by simp
  from t [where argv = "[''siplus'', ''-d'']" and msg = "''expected argument for -d''"
         and st = initial_state] p2
  have r2: "exit_code (main toy_world [''siplus'', ''-d'']) = 2"
    "stderr_of (events (main toy_world [''siplus'', ''-d''])) = ''error: expected argument for -d\<newline>''"
    by simp_all
  from t [where argv = "[''siplus'', ''{'', ''-d'', ''x'']" and st = ?s3
         and e = "''unterminated expression''"] p3 e3
  have r3: "exit_code (main toy_world [''siplus'', ''{'', ''-d'', ''x'']) = 1"
    "stderr_of (events (main toy_world [''siplus'', ''{'', ''-d'', ''x'']))
       = ''parse error: unterminated expression\<newline>''"
    by simp_all
  from t [where argv = "[''siplus'', ''{$x}'', ''-d'', ''x'']" and st = ?s4
         and e = "''unknown variable x''" and t = "''{$x}''"] p4 e4
  have r4: "exit_code (main toy_world [''siplus'', ''{$x}'', ''-d'', ''x'']) = 1"
    "stderr_of (events (main toy_world [''siplus'', ''{$x}'', ''-d'', ''x'']))
       = ''execution error: unknown variable x\<newline>''"
    by simp_all
  from t [where argv = "[''siplus'', ''{$x}'', ''-d'', ''x'', ''-v'', ''x=1'']" and st = ?s5
         and rendered = "''1''" and t = "''{$x}''"] p5 e5
  have r5: "exit_code (main toy_world [''siplus'', ''{$x}'', ''-d'', ''x'', ''-v'', ''x=1'']) = 0"
    "events (main toy_world [''siplus'', ''{$x}'', ''-d'', ''x'', ''-v'', ''x=1''])
       = [Compile ''{$x}'' [''x''], Render, Stdout ''1'']"
    by (simp_all add: initial_state_def b)
  show ?thesis using p1 p2 r1 r2 r3 r4 r5 by simp
qed

section \<open>The signal handler\<close>

text \<open>
  Claim C3 says that the handler of \<^verbatim>\<open>SIGSEGV\<close> and \<^verbatim>\<open>SIGABRT\<close> ends the process with a
  status that is none of 0, 1 and 2. The handler calls \<^verbatim>\<open>std::exit(1)\<close>: its status is
  the one \<^verbatim>\<open>main\<close> returns when the engine rejects a template.
\<close>

theorem signal_status_counterexample:
  "exit_code (signal_handler [] 11) = 1 \<and>
   exit_code (main toy_world [''siplus'', ''{'', ''-d'', ''x'']) = 1 \<and>
   exit_code (signal_handler [] 11) \<in> {0, 1, 2}"
  by (simp add: signal_handler_def main_def toy_eval)

text \<open>
  Claim C3, as amended. When a fatal signal is caught, the handler prints
  \<^verbatim>\<open>Signal N caught. Death imminent.\<close> with the number of the signal, prints the stack
  trace, and ends the process with status 1: not the status of success or help (0),
  not the status of a usage error (2), but the same status as a template that fails to
  compile or render.
\<close>

theorem signal_handler_exits_one:
  "events (signal_handler tr sig)
     = [Stdout (''Signal '' @ show_int sig @ '' caught. Death imminent.''), Stderr tr] \<and>
   exit_code (signal_handler tr sig) = 1 \<and>
   exit_code (signal_handler tr sig) \<noteq> 0 \<and>
   exit_code (signal_handler tr sig) \<noteq> 2 \<and>
   (0 \<le> sig \<longrightarrow> read_nat (show_int sig) = nat sig) \<and>
   (parse_args w argv = Returned st \<and>
    get_interpolation w (input st) (map fst (bucket_order w (args st))) = Inl e \<longrightarrow>
      exit_code (signal_handler tr sig) = exit_code (main w argv))"
  by (simp add: signal_handler_def main_def Let_def read_show_int)

theorem signal_handler_exits_one_witness:
  "parse_args toy_world [''siplus'', ''{'', ''-d'', ''x'']
     = Returned (initial_state\<lparr>input := ''{'', out := Shared, default_value := Some ''x'',
         input_specified := True, default_specified := True\<rparr>) \<and>
   (0::int) \<le> 11 \<and> read_nat ''11'' = 11 \<and>
   stdout_of (events (signal_handler ''trace'' 11)) = ''Signal 11 caught. Death imminent.'' \<and>
   exit_code (signal_handler ''trace'' 11) = exit_code (main toy_world [''siplus'', ''{'', ''-d'', ''x''])"
proof -
  let ?s3 = "initial_state\<lparr>input := ''{'', out := Shared, default_value := Some ''x'',
      input_specified := True, default_specified := True\<rparr> :: string parse_state"
  have p3: "parse_args toy_world [''siplus'', ''{'', ''-d'', ''x''] = Returned ?s3"
    by (simp add: toy_eval)
  have e3: "get_interpolation toy_world (input ?s3) (map fst (bucket_order toy_world (args ?s3)))
              = Inl ''unterminated expression''"
    by (simp add: toy_world_def initial_state_def)
  have s: "show_int 11 = ''11''" by code_simp
  from signal_handler_exits_one [where tr = "''trace''" and sig = 11 and w = toy_world
      and argv = "[''siplus'', ''{'', ''-d'', ''x'']" and st = ?s3 and e = "''unterminated expression''"]
    p3 e3 s
  show ?thesis by simp
qed

section \<open>An output file that cannot be opened\<close>

text \<open>
  Claim C4 says that \<^verbatim>\<open>-o <path>\<close> with a path that cannot be opened for writing fails
  with an I/O error before the template is compiled or rendered. Nothing in the program
  tests the stream: \<^verbatim>\<open>new std::ofstream{path}\<close> does not throw, and neither does the
  write. With such a path the template is compiled and rendered, the text is dropped,
  nothing is printed on standard error and the exit code is 0.
\<close>

theorem unwritable_output_counterexample:
  "\<not> can_open toy_world ''/no/such/dir/out.txt'' \<and>
   main toy_world [''siplus'', ''hi'', ''-d'', ''x'', ''-o'', ''/no/such/dir/out.txt'']
     = \<lparr>exit_code = 0,
        events = [Opened ''/no/such/dir/out.txt'' False, Compile ''hi'' [], Render,
                  Released ''/no/such/dir/out.txt'']\<rparr>"
  by (simp add: main_def toy_eval)

text \<open>
  Claim C4, as amended. For every valid invocation whose \<^verbatim>\<open>-o <path>\<close> names a file
  that cannot be opened for writing, no error is raised: \<^verbatim>\<open>parse_args\<close> returns with the
  failed stream as the output, \<^verbatim>\<open>main\<close> compiles the template, and when the engine
  compiles and renders it the run consists of the failed open, the two engine calls and
  the release of the stream, with nothing written and exit code 0.
\<close>

theorem unwritable_output_is_silent:
  assumes "valid_invocation items" and "OutputOpt f p \<in> set items" and "\<not> can_open w p"
  shows "\<exists>st. parse_args w (prog # tokens_of items) = Returned st \<and>
           out st = Owned p False \<and> trace st = [Opened p False] \<and>
           Compile (input st) (map fst (bucket_order w (args st)))
             \<in> set (events (main w (prog # tokens_of items))) \<and>
           (\<forall>t rendered.
              get_interpolation w (input st) (map fst (bucket_order w (args st))) = Inr t \<and>
              construct_with w t (default_value st) (bucket_order w (args st)) = Inr rendered \<longrightarrow>
              main w (prog # tokens_of items)
                = \<lparr>exit_code = 0,
                   events = [Opened p False,
                             Compile (input st) (map fst (bucket_order w (args st))),
                             Render, Released p]\<rparr>)"
proof -
  let ?st = "foldl (item_effect w) initial_state items"
  from parse_args_valid(1) [OF assms(1), of w prog] parse_args_valid(2) [OF assms(1), of w]
  obtain st where run: "parse_args w (prog # tokens_of items) = Returned st"
    and fin: "finish_args ?st = Returned st"
    by auto
  have "length (filter is_output_item items) \<le> 1"
    using assms(1) by (simp add: valid_invocation_def)
  from effect_output_file [OF this assms(2), of initial_state w] assms(3)
  have "out ?st = Owned p False" "trace ?st = [Opened p False]" "output_specified ?st"
    by (simp_all add: initial_state_def)
  from finish_args_owned [OF fin this]
  have o: "out st = Owned p False" and t: "trace st = [Opened p False]" by simp_all
  show ?thesis
    using run o t main_compiles [OF run]
    by (auto simp: main_def Let_def)
qed

theorem unwritable_output_is_silent_witness:
  "valid_invocation [Template ''hi'', OutputOpt ''-o'' ''/no/such/dir/out.txt'', DefaultOpt ''-d'' ''x''] \<and>
   \<not> can_open toy_world ''/no/such/dir/out.txt'' \<and>
   main toy_world [''siplus'', ''hi'', ''-o'', ''/no/such/dir/out.txt'', ''-d'', ''x'']
     = \<lparr>exit_code = 0,
        events = [Opened ''/no/such/dir/out.txt'' False, Compile ''hi'' [], Render,
                  Released ''/no/such/dir/out.txt'']\<rparr>"
proof -
  let ?items = "[Template ''hi'', OutputOpt ''-o'' ''/no/such/dir/out.txt'', DefaultOpt ''-d'' ''x'']"
  have v: "valid_invocation ?items"
    by (simp add: valid_invocation_def flag_defs)
  have m: "OutputOpt ''-o'' ''/no/such/dir/out.txt'' \<in> set ?items" by simp
  have n: "\<not> can_open toy_world ''/no/such/dir/out.txt''" by (simp add: toy_world_def)
  have g: "get_interpolation toy_world ''hi'' gs = Inr ''hi''" for gs
    by (simp add: toy_world_def)
  have c: "construct_with toy_world ''hi'' d bs = Inr ''hi''" for d bs
    by (simp add: toy_world_def)
  have b: "bucket_order toy_world bs = bs" for bs :: "(string \<times> string) list"
    by (simp add: toy_world_def)
  have p: "parse_args toy_world [''siplus'', ''hi'', ''-o'', ''/no/such/dir/out.txt'', ''-d'', ''x'']
     = Returned (initial_state\<lparr>input := ''hi'', out := Owned ''/no/such/dir/out.txt'' False,
          default_value := Some ''x'', input_specified := True, output_specified := True,
          default_specified := True, trace := [Opened ''/no/such/dir/out.txt'' False]\<rparr>)"
    by (simp add: toy_eval)
  from unwritable_output_is_silent [OF v m n, of "''siplus''"] v n
  show ?thesis
    by (auto simp: tokens_of_def p g c b initial_state_def)
qed

section \<open>Release of the output stream\<close>

text \<open>
  Claim C8. When \<^verbatim>\<open>-o\<close> has opened a stream, the stream is released exactly once on
  every path on which \<^verbatim>\<open>main\<close> returns: after the write on the success path, and
  after the error message when \<^verbatim>\<open>parse_args\<close>, the compilation or the rendering fails.
  The release is the last thing that happens, and it happens also when the stream could
  not be opened, so that the write wrote nothing.
\<close>

theorem owned_sink_released_once:
  assumes "\<not> exited (parse_args w argv)" and "Opened p ok \<in> set (events (main w argv))"
  shows "releases (events (main w argv)) = 1 \<and> opens (events (main w argv)) = 1 \<and>
         last (events (main w argv)) = Released p"
proof -
  let ?st = "state_of (parse_args w argv)"
  from main_events_shape [OF assms(1)] obtain mid
    where ev: "events (main w argv) = trace ?st @ mid @ destroy_sink (out ?st)"
      and mid: "filter is_opened mid = []" "filter is_released mid = []"
    by blast
  have inv: "sink_inv ?st" by (rule parse_args_sink_inv)
  have "Opened p ok \<in> set (filter is_opened (events (main w argv)))"
    using assms(2) by simp
  then have mem: "Opened p ok \<in> set (filter is_opened (trace ?st))"
    unfolding ev by (simp add: mid destroy_sink_quiet)
  show ?thesis
  proof (cases "out ?st")
    case Null
    with inv mem show ?thesis by (simp add: sink_inv_def opens_def)
  next
    case Shared
    with inv mem show ?thesis by (simp add: sink_inv_def opens_def)
  next
    case (Owned p' ok')
    with inv have tr: "filter is_opened (trace ?st) = [Opened p' ok']"
      and rel: "filter is_released (trace ?st) = []"
      by (simp_all add: sink_inv_def releases_def)
    from mem tr have "p' = p" by simp
    with Owned tr rel mid show ?thesis
      unfolding ev by (simp add: releases_def opens_def)
  qed
qed

theorem owned_sink_released_once_witness:
  "\<not> exited (parse_args toy_world [''siplus'', ''-o'', ''out.txt'', ''t'']) \<and>
   events (main toy_world [''siplus'', ''-o'', ''out.txt'', ''t''])
     = [Opened ''out.txt'' True, Stderr ''error: No default value specified\<newline>'',
        Released ''out.txt''] \<and>
   releases (events (main toy_world [''siplus'', ''-o'', ''out.txt'', ''t''])) = 1 \<and>
   \<not> exited (parse_args toy_world [''siplus'', ''-o'', ''/no/such/dir/out.txt'', ''t'', ''-d'', ''x'']) \<and>
   events (main toy_world [''siplus'', ''-o'', ''/no/such/dir/out.txt'', ''t'', ''-d'', ''x''])
     = [Opened ''/no/such/dir/out.txt'' False, Compile ''t'' [], Render,
        Released ''/no/such/dir/out.txt''] \<and>
   releases (events (main toy_world [''siplus'', ''-o'', ''/no/such/dir/out.txt'', ''t'', ''-d'', ''x''])) = 1"
proof -
  let ?a1 = "[''siplus'', ''-o'', ''out.txt'', ''t'']"
  let ?a2 = "[''siplus'', ''-o'', ''/no/such/dir/out.txt'', ''t'', ''-d'', ''x'']"
  have e1: "events (main toy_world ?a1)
     = [Opened ''out.txt'' True, Stderr ''error: No default value specified\<newline>'',
        Released ''out.txt'']"
    by (simp add: main_def toy_eval)
  have e2: "events (main toy_world ?a2)
     = [Opened ''/no/such/dir/out.txt'' False, Compile ''t'' [], Render,
        Released ''/no/such/dir/out.txt'']"
    by (simp add: main_def toy_eval)
  have x1: "\<not> exited (parse_args toy_world ?a1)"
    by (simp add: toy_eval)
  have x2: "\<not> exited (parse_args toy_world ?a2)"
    by (simp add: toy_eval)
  have o1: "Opened ''out.txt'' True \<in> set (events (main toy_world ?a1))"
    unfolding e1 by simp
  have o2: "Opened ''/no/such/dir/out.txt'' False \<in> set (events (main toy_world ?a2))"
    unfolding e2 by simp
  from owned_sink_released_once [OF x1 o1] owned_sink_released_once [OF x2 o2] x1 x2 e1 e2
  show ?thesis by simp
qed

text \<open>
  The hypothesis that \<^verbatim>\<open>parse_args\<close> did not leave through \<^verbatim>\<open>std::exit\<close> is needed:
  the help flag is neither the success path nor an error path, and behind a \<^verbatim>\<open>-o\<close> it
  ends the process with the stream still allocated.
\<close>

lemma exit_skips_destructor:
  "events (main toy_world [''siplus'', ''-o'', ''out.txt'', ''-h''])
     = [Opened ''out.txt'' True, Stdout (help_text @ ''\<newline>'')]"
  by (simp add: main_def toy_eval)

end
